theory Spec2Isabelle
  imports Main "HOL-Library.AList" "HOL-Library.Sublist"
begin

section \<open>Exceptions\<close>

text \<open>
  The Python exceptions that the installer module can meet. A function that may raise
  returns \<open>error + 'a\<close>, with \<open>Inl\<close> for the exception. The \<open>except\<close> clauses of
  the source select by class, so the class hierarchy is written out:
  \<open>JSONDecodeError\<close> and \<open>UnicodeDecodeError\<close> are subclasses of \<open>ValueError\<close>,
  \<open>HTTPError\<close> is a subclass of \<open>URLError\<close>.
\<close>

datatype error =
    HTTPError | URLError
  | ValueError | JSONDecodeError | UnicodeDecodeError
  | KeyError | AttributeError | CalledProcessError
  | FileNotFoundError | FileExistsError | NotADirectoryError | IsADirectoryError
  | PermissionError | OSError
  | BadZipFile | ParseError
  | OtherError string

fun is_ValueError :: "error \<Rightarrow> bool" where
  "is_ValueError ValueError = True"
| "is_ValueError JSONDecodeError = True"
| "is_ValueError UnicodeDecodeError = True"
| "is_ValueError _ = False"

fun is_URLError :: "error \<Rightarrow> bool" where
  "is_URLError URLError = True"
| "is_URLError HTTPError = True"
| "is_URLError _ = False"

fun is_HTTPError :: "error \<Rightarrow> bool" where
  "is_HTTPError HTTPError = True"
| "is_HTTPError _ = False"

section \<open>File contents: JSON, XML, archives\<close>

text \<open>
  A JSON value as \<open>json.loads\<close> returns it; \<open>JObject kvs\<close> is the dict \<open>map_of kvs\<close>.
  Numbers are integers here (a float behaves as a non-zero integer wherever this module
  looks at one, but for \<open>0.0\<close>).
\<close>

datatype json =
    JNull | JBool bool | JNumber int | JString string
  | JArray "json list" | JObject "(string \<times> json) list"

text \<open>
  An element as \<open>ElementTree\<close> holds it: its tag, its text (\<open>None\<close> when the
  element has none) and its child elements in document order.
\<close>

datatype element = Element (tag: string) (elem_text: "string option") (children: "element list")

text \<open>
  The bytes of a file or of an HTTP response body are modelled by what the parsers of
  the standard library make of them: the text of a JSON value, a well-formed XML document
  (given by its root element), a zip archive (member names and their data), or bytes that
  none of these parsers accepts. \<open>json.dump\<close> followed by \<open>"\n"\<close> writes
  \<open>JsonText\<close> of the dumped value.
\<close>

datatype content =
    Bytes string
  | JsonText json
  | XmlText element
  | ZipArchive "(string \<times> content) list"

fun loads :: "content \<Rightarrow> error + json" where
  "loads (JsonText j) = Inr j"
| "loads (ZipArchive _) = Inl UnicodeDecodeError"
| "loads _ = Inl JSONDecodeError"

fun fromstring :: "content \<Rightarrow> error + element" where
  "fromstring (XmlText root) = Inr root"
| "fromstring _ = Inl ParseError"

text \<open>Truth value of a JSON value in a condition (\<open>not version\<close>), and \<open>dict.get\<close>,
  which only a dict has.\<close>

fun truthy :: "json \<Rightarrow> bool" where
  "truthy JNull = False"
| "truthy (JBool b) = b"
| "truthy (JNumber n) = (n \<noteq> 0)"
| "truthy (JString s) = (s \<noteq> [])"
| "truthy (JArray xs) = (xs \<noteq> [])"
| "truthy (JObject kvs) = (kvs \<noteq> [])"

fun dict_get :: "json \<Rightarrow> string \<Rightarrow> json \<Rightarrow> error + json" where
  "dict_get (JObject kvs) k dflt = (case map_of kvs k of None \<Rightarrow> Inr dflt | Some v \<Rightarrow> Inr v)"
| "dict_get _ k dflt = Inl AttributeError"

section \<open>Maven metadata: \<open>xml.etree.ElementTree\<close>\<close>

text \<open>
  The two kinds of path step that the source uses: \<open>/tag\<close> selects, for every element
  of the context in turn, its children with that tag; \<open>/tag[last()]\<close> keeps of these,
  for every parent, the one that is last among the parent's children with that tag
  (the predicate of \<open>ElementPath\<close> tests \<open>parent.findall(tag)[-1] is elem\<close>).
\<close>

datatype step = Child string | ChildLast string

definition findall_children :: "string \<Rightarrow> element \<Rightarrow> element list" where
  "findall_children t e = filter (\<lambda>c. tag c = t) (children e)"

fun select :: "step \<Rightarrow> element list \<Rightarrow> element list" where
  "select (Child t) ctx = concat (map (findall_children t) ctx)"
| "select (ChildLast t) ctx =
     concat (map (\<lambda>parent. case findall_children t parent of [] \<Rightarrow> [] | c # cs \<Rightarrow> [last (c # cs)])
       ctx)"

definition iterfind :: "element \<Rightarrow> step list \<Rightarrow> element list" where
  "iterfind elem p = fold select p [elem]"

text \<open>\<open>findtext\<close>: the text of the first match, \<open>""\<close> when that element has no text,
  the default \<open>None\<close> when nothing matches.\<close>

definition findtext :: "element \<Rightarrow> step list \<Rightarrow> string option" where
  "findtext elem p =
     (case iterfind elem p of
        [] \<Rightarrow> None
      | e # _ \<Rightarrow> Some (case elem_text e of None \<Rightarrow> [] | Some t \<Rightarrow> t))"

text \<open>The loop \<open>for label in ("release", "latest")\<close> of
  \<open>MavenInstaller._extract_latest_release_version\<close>, and the function itself.\<close>

fun first_label :: "element \<Rightarrow> string list \<Rightarrow> string option" where
  "first_label root [] = None"
| "first_label root (label # labels) =
     (case findtext root [Child ''versioning'', Child label] of
        Some version \<Rightarrow> Some version
      | None \<Rightarrow> first_label root labels)"

definition extract_latest_release_version :: "content \<Rightarrow> error + string option" where
  "extract_latest_release_version maven_metadata =
     (case fromstring maven_metadata of
        Inl e \<Rightarrow> Inl e
      | Inr root \<Rightarrow>
          (case first_label root [''release'', ''latest''] of
             Some version \<Rightarrow> Inr (Some version)
           | None \<Rightarrow>
               Inr (findtext root
                 [Child ''versioning'', Child ''versions'', ChildLast ''version''])))"

text \<open>
  The specification's reading of version resolution, written without the path engine:
  \<open>below ts e\<close> are the elements reached from \<open>e\<close> by descending through children
  tagged \<open>ts\<close> in turn, in document order; \<open>text_of\<close> is an element's text.
\<close>

fun below :: "string list \<Rightarrow> element \<Rightarrow> element list" where
  "below [] e = [e]"
| "below (t # ts) e = concat (map (below ts) (filter (\<lambda>c. tag c = t) (children e)))"

definition text_of :: "element \<Rightarrow> string" where
  "text_of e = (case elem_text e of None \<Rightarrow> [] | Some t \<Rightarrow> t)"

definition last_versions :: "element \<Rightarrow> element list" where
  "last_versions root =
     concat (map (\<lambda>vs. case below [''version''] vs of [] \<Rightarrow> [] | c # cs \<Rightarrow> [last (c # cs)])
       (below [''versioning'', ''versions''] root))"

definition resolved_version :: "element \<Rightarrow> string option" where
  "resolved_version root =
     (case below [''versioning'', ''release''] root of
        r # _ \<Rightarrow> Some (text_of r)
      | [] \<Rightarrow>
         (case below [''versioning'', ''latest''] root of
            l # _ \<Rightarrow> Some (text_of l)
          | [] \<Rightarrow>
             (case last_versions root of
                v # _ \<Rightarrow> Some (text_of v)
              | [] \<Rightarrow> None)))"

definition versions_only_metadata :: element where
  "versions_only_metadata =
     Element ''metadata'' None
       [Element ''versioning'' None
         [Element ''versions'' None
           [Element ''version'' (Some ''1.0'') [], Element ''version'' (Some ''2.0'') []]]]"

section \<open>The filesystem\<close>

text \<open>
  A node is a regular file with its content or a directory with its entries; an entry is
  looked up by name (\<open>map_of\<close>). A path is the list of its components, and the tree is
  the one under \<open>Path.home()\<close>. Symbolic links and permissions are not modelled. A
  product name, an artifact id and the like are single path components.
\<close>

datatype node = File content | Dir "(string \<times> node) list"

type_synonym path = "string list"

fun node_at :: "node \<Rightarrow> path \<Rightarrow> node option" where
  "node_at n [] = Some n"
| "node_at (File c) (x # p) = None"
| "node_at (Dir kids) (x # p) = (case map_of kids x of None \<Rightarrow> None | Some k \<Rightarrow> node_at k p)"

definition path_exists :: "node \<Rightarrow> path \<Rightarrow> bool" where
  "path_exists fs p = (node_at fs p \<noteq> None)"

definition is_dir :: "node \<Rightarrow> path \<Rightarrow> bool" where
  "is_dir fs p = (case node_at fs p of Some (Dir _) \<Rightarrow> True | _ \<Rightarrow> False)"

definition is_file :: "node \<Rightarrow> path \<Rightarrow> bool" where
  "is_file fs p = (case node_at fs p of Some (File _) \<Rightarrow> True | _ \<Rightarrow> False)"

text \<open>\<open>put p v fs\<close> stores the node \<open>v\<close> at \<open>p\<close>, or removes the entry at \<open>p\<close> when
  \<open>v\<close> is \<open>None\<close>; the tree is unchanged when the parent of \<open>p\<close> is not a directory.\<close>

fun put :: "path \<Rightarrow> node option \<Rightarrow> node \<Rightarrow> node" where
  "put [] v n = (case v of None \<Rightarrow> n | Some m \<Rightarrow> m)"
| "put (x # p) v (File c) = File c"
| "put [x] v (Dir kids) =
     Dir (case v of None \<Rightarrow> AList.delete x kids | Some m \<Rightarrow> AList.update x m kids)"
| "put (x # y # p) v (Dir kids) =
     (case map_of kids x of
        None \<Rightarrow> Dir kids
      | Some k \<Rightarrow> Dir (AList.update x (put (y # p) v k) kids))"

text \<open>The calls of \<open>pathlib\<close>, \<open>os\<close> and \<open>shutil\<close> that the module makes.\<close>

definition mkdir :: "path \<Rightarrow> node \<Rightarrow> error + node" where
  "mkdir p fs =
     (if path_exists fs p then Inl FileExistsError
      else if is_dir fs (butlast p) then Inr (put p (Some (Dir [])) fs)
      else if path_exists fs (butlast p) then Inl NotADirectoryError
      else Inl FileNotFoundError)"

fun fresh_dirs :: "path \<Rightarrow> node" where
  "fresh_dirs [] = Dir []"
| "fresh_dirs (x # p) = Dir [(x, fresh_dirs p)]"

text \<open>\<open>Path.mkdir(parents=True)\<close>: missing ancestors are created, an existing leaf is
  an error.\<close>

fun mkdir_parents :: "path \<Rightarrow> node \<Rightarrow> error + node" where
  "mkdir_parents [] n = Inl FileExistsError"
| "mkdir_parents (x # p) (File c) = Inl NotADirectoryError"
| "mkdir_parents (x # p) (Dir kids) =
     (case map_of kids x of
        None \<Rightarrow> Inr (Dir (AList.update x (fresh_dirs p) kids))
      | Some k \<Rightarrow>
          (case mkdir_parents p k of
             Inl e \<Rightarrow> Inl e
           | Inr k' \<Rightarrow> Inr (Dir (AList.update x k' kids))))"

definition rmtree :: "path \<Rightarrow> node \<Rightarrow> error + node" where
  "rmtree p fs =
     (case node_at fs p of
        None \<Rightarrow> Inl FileNotFoundError
      | Some (File _) \<Rightarrow> Inl NotADirectoryError
      | Some (Dir _) \<Rightarrow> Inr (put p None fs))"

text \<open>\<open>os.rename\<close>. On Windows an existing destination is an error; elsewhere a file
  replaces a file and a directory replaces an empty directory.\<close>

definition rename :: "bool \<Rightarrow> path \<Rightarrow> path \<Rightarrow> node \<Rightarrow> error + node" where
  "rename on_windows src dst fs =
     (case node_at fs src of
        None \<Rightarrow> Inl FileNotFoundError
      | Some n \<Rightarrow>
          if src = dst then Inr fs
          else if prefix src dst \<or> prefix dst src then Inl OSError
          else if \<not> is_dir fs (butlast dst) then Inl FileNotFoundError
          else
            (case node_at fs dst of
               None \<Rightarrow> Inr (put dst (Some n) (put src None fs))
             | Some d \<Rightarrow>
                 if on_windows then Inl FileExistsError
                 else
                   (case n of
                      Dir _ \<Rightarrow>
                        (case d of
                           Dir dkids \<Rightarrow>
                             if dkids = [] then Inr (put dst (Some n) (put src None fs))
                             else Inl OSError
                         | File _ \<Rightarrow> Inl NotADirectoryError)
                    | File _ \<Rightarrow>
                        (case d of
                           Dir _ \<Rightarrow> Inl IsADirectoryError
                         | File _ \<Rightarrow> Inr (put dst (Some n) (put src None fs))))))"

definition write_file :: "path \<Rightarrow> content \<Rightarrow> node \<Rightarrow> error + node" where
  "write_file p c fs =
     (case node_at fs p of
        Some (Dir _) \<Rightarrow> Inl IsADirectoryError
      | _ \<Rightarrow>
          if is_dir fs (butlast p) then Inr (put p (Some (File c)) fs)
          else Inl FileNotFoundError)"

definition read_bytes :: "node \<Rightarrow> path \<Rightarrow> error + content" where
  "read_bytes fs p =
     (case node_at fs p of
        None \<Rightarrow> Inl FileNotFoundError
      | Some (Dir _) \<Rightarrow> Inl IsADirectoryError
      | Some (File c) \<Rightarrow> Inr c)"

definition listdir :: "node \<Rightarrow> path \<Rightarrow> error + string list" where
  "listdir fs p =
     (case node_at fs p of
        None \<Rightarrow> Inl FileNotFoundError
      | Some (File _) \<Rightarrow> Inl NotADirectoryError
      | Some (Dir kids) \<Rightarrow> Inr (map fst kids))"

section \<open>\<open>TranspilerInstaller\<close>: layout and version state\<close>

definition labs_path :: path where
  "labs_path = [''.databricks'', ''labs'']"

definition transpilers_path :: path where
  "transpilers_path = labs_path @ [''remorph-transpilers'']"

text \<open>\<open>get_installed_version\<close>. A truthy \<open>version\<close> that is not a string has no
  \<open>startswith\<close>.\<close>

definition get_installed_version :: "node \<Rightarrow> string \<Rightarrow> bool \<Rightarrow> error + string option" where
  "get_installed_version fs product_name is_transpiler =
     (let product_path = (if is_transpiler then transpilers_path else labs_path) @ [product_name];
          current_version_path = product_path @ [''state'', ''version.json'']
      in if \<not> path_exists fs current_version_path then Inr None
         else
           (case read_bytes fs current_version_path of
              Inl e \<Rightarrow> Inl e
            | Inr text \<Rightarrow>
                (case loads text of
                   Inl e \<Rightarrow> Inl e
                 | Inr data \<Rightarrow>
                     (case dict_get data ''version'' JNull of
                        Inl e \<Rightarrow> Inl e
                      | Inr version \<Rightarrow>
                          if \<not> truthy version then Inr None
                          else
                            (case version of
                               JString s \<Rightarrow>
                                 if \<not> prefix ''v'' s then Inr None else Inr (Some (drop 1 s))
                             | _ \<Rightarrow> Inl AttributeError)))))"

section \<open>The world an installer runs in\<close>

text \<open>
  The state that the module changes is the filesystem; the requests it sends and the
  processes it starts are recorded in the order they happen.
\<close>

datatype call = UrlOpen string | UrlRetrieve string | Run "string list"

record world =
  files :: node
  calls :: "call list"

text \<open>
  An operation either raises or returns, and in both cases leaves a world behind: an
  exception does not undo the writes made before it.
\<close>

type_synonym 'a io = "world \<Rightarrow> (error + 'a) \<times> world"

definition return :: "'a \<Rightarrow> 'a io" where
  "return x w = (Inr x, w)"

definition raise :: "error \<Rightarrow> 'a io" where
  "raise e w = (Inl e, w)"

definition and_then :: "'a io \<Rightarrow> ('a \<Rightarrow> 'b io) \<Rightarrow> 'b io" where
  "and_then m f w = (case m w of (Inl e, w') \<Rightarrow> (Inl e, w') | (Inr x, w') \<Rightarrow> f x w')"

text \<open>\<open>try: body except (classes): handler\<close>.\<close>

definition try_except :: "'a io \<Rightarrow> (error \<Rightarrow> bool) \<Rightarrow> 'a io \<Rightarrow> 'a io" where
  "try_except body caught handler w =
     (case body w of
        (Inl e, w') \<Rightarrow> if caught e then handler w' else (Inl e, w')
      | (Inr x, w') \<Rightarrow> (Inr x, w'))"

definition fs_op :: "(node \<Rightarrow> error + node) \<Rightarrow> unit io" where
  "fs_op f w = (case f (files w) of Inl e \<Rightarrow> (Inl e, w) | Inr fs' \<Rightarrow> (Inr (), w\<lparr>files := fs'\<rparr>))"

definition record_call :: "call \<Rightarrow> unit io" where
  "record_call c w = (Inr (), w\<lparr>calls := calls w @ [c]\<rparr>)"

text \<open>\<open>_store_product_state\<close>; \<open>now\<close> is \<open>datetime.now(timezone.utc).isoformat()\<close>.\<close>

definition store_product_state :: "string \<Rightarrow> path \<Rightarrow> string \<Rightarrow> unit io" where
  "store_product_state now product_path version =
     (let state_path = product_path @ [''state''];
          version_data = JObject [(''version'', JString (''v'' @ version)), (''date'', JString now)];
          version_path = state_path @ [''version.json'']
      in and_then (fs_op (mkdir state_path))
           (\<lambda>_. fs_op (write_file version_path (JsonText version_data))))"

section \<open>\<open>TranspilerInstaller\<close>: discovery of the installed engines\<close>

text \<open>
  Modelled from the spec: the option descriptor \<open>LSPConfigOptionV1\<close> and the engine
  descriptor \<open>LSPConfig\<close> are declared outside this module. The fields are the ones the
  module reads (\<open>flag\<close>, \<open>method\<close>, \<open>prompt\<close>, \<open>choices\<close>, \<open>default\<close>; \<open>path\<close>,
  \<open>name\<close>, \<open>remorph.dialects\<close>, \<open>options\<close>), prefixed here with \<open>opt_\<close> and
  \<open>cfg_\<close>. \<open>LSPConfig.load\<close> is a parameter \<open>load\<close> of the functions that call it:
  from the path of a \<open>config.yml\<close> and its bytes it returns a descriptor or raises.
\<close>

datatype lsp_prompt_method = FORCE | CONFIRM | QUESTION | CHOICE

record lsp_config_option =
  opt_flag :: string
  opt_method :: lsp_prompt_method
  opt_prompt :: "string option"
  opt_choices :: "string list option"
  opt_default :: "string option"

record lsp_config =
  cfg_path :: path
  cfg_name :: string
  cfg_dialects :: "string list"
  cfg_options :: "(string \<times> lsp_config_option list) list"

type_synonym loader = "path \<Rightarrow> content \<Rightarrow> error + lsp_config"

definition path_str :: "path \<Rightarrow> string" where
  "path_str p = ''~'' @ concat (map (\<lambda>c. ''/'' @ c) p)"

text \<open>
  The functions of discovery read the filesystem and write to the error log; they return
  their result together with the messages passed to \<open>logger.error\<close>. Names follow the
  source without the leading underscore; \<open>_all_transpiler_configs\<close> is
  \<open>iter_all_transpiler_configs\<close>, and the generator is run to its end.
\<close>

definition transpiler_config :: "loader \<Rightarrow> node \<Rightarrow> path \<Rightarrow> (error + lsp_config option) \<times> string list" where
  "transpiler_config load fs p =
     (if \<not> is_dir fs p \<or> \<not> is_dir fs (p @ [''lib'']) then (Inr None, [])
      else
        (let config_path = p @ [''lib'', ''config.yml'']
         in case node_at fs config_path of
              Some (File c) \<Rightarrow>
                (case load config_path c of
                   Inr config \<Rightarrow> (Inr (Some config), [])
                 | Inl e \<Rightarrow>
                     if is_ValueError e then (Inr None, [''Could not load config: '' @ path_str p])
                     else (Inl e, []))
            | _ \<Rightarrow> (Inr None, [])))"

fun configs_of_files :: "loader \<Rightarrow> node \<Rightarrow> string list \<Rightarrow> (error + lsp_config list) \<times> string list" where
  "configs_of_files load fs [] = (Inr [], [])"
| "configs_of_files load fs (file # all_files) =
     (case transpiler_config load fs (transpilers_path @ [file]) of
        (Inl e, logged) \<Rightarrow> (Inl e, logged)
      | (Inr config, logged) \<Rightarrow>
          (case configs_of_files load fs all_files of
             (Inl e, logged') \<Rightarrow> (Inl e, logged @ logged')
           | (Inr configs, logged') \<Rightarrow>
               (Inr ((case config of None \<Rightarrow> [] | Some c \<Rightarrow> [c]) @ configs), logged @ logged')))"

definition iter_all_transpiler_configs :: "loader \<Rightarrow> node \<Rightarrow> (error + lsp_config list) \<times> string list" where
  "iter_all_transpiler_configs load fs =
     (if path_exists fs transpilers_path then
        (case listdir fs transpilers_path of
           Inl e \<Rightarrow> (Inl e, [])
         | Inr all_files \<Rightarrow> configs_of_files load fs all_files)
      else (Inr [], []))"

text \<open>The dict \<open>{config.name: config for config in all_configs}\<close>: a later descriptor
  replaces an earlier one of the same name.\<close>

definition all_transpiler_configs :: "loader \<Rightarrow> node \<Rightarrow> (error + (string \<times> lsp_config) list) \<times> string list" where
  "all_transpiler_configs load fs =
     (case iter_all_transpiler_configs load fs of
        (Inl e, logged) \<Rightarrow> (Inl e, logged)
      | (Inr all_configs, logged) \<Rightarrow>
          (Inr (fold (\<lambda>config d. AList.update (cfg_name config) config d) all_configs []), logged))"

definition all_transpiler_names :: "loader \<Rightarrow> node \<Rightarrow> (error + string set) \<times> string list" where
  "all_transpiler_names load fs =
     (case all_transpiler_configs load fs of
        (Inl e, logged) \<Rightarrow> (Inl e, logged)
      | (Inr all_configs, logged) \<Rightarrow> (Inr (set (map fst all_configs)), logged))"

definition transpiler_config_options ::
  "loader \<Rightarrow> node \<Rightarrow> string \<Rightarrow> string \<Rightarrow> (error + lsp_config_option list) \<times> string list" where
  "transpiler_config_options load fs transpiler_name source_dialect =
     (case all_transpiler_configs load fs of
        (Inl e, logged) \<Rightarrow> (Inl e, logged)
      | (Inr all_configs, logged) \<Rightarrow>
          (case map_of all_configs transpiler_name of
             None \<Rightarrow> (Inr [], logged)
           | Some config \<Rightarrow>
               (Inr (case map_of (cfg_options config) source_dialect of
                       Some opts \<Rightarrow> opts
                     | None \<Rightarrow>
                         (case map_of (cfg_options config) ''all'' of
                            Some opts \<Rightarrow> opts
                          | None \<Rightarrow> [])),
                logged)))"

text \<open>
  What the specification says of one entry of the engines root: it is an engine when it
  is a directory with a \<open>lib\<close> subdirectory and a regular file \<open>lib/config.yml\<close> that
  loads; it is unparsable when that file does not load; anything else is ignored.
\<close>

datatype entry_status = Ignored | Unparsable | Engine lsp_config

definition entry_status_of :: "loader \<Rightarrow> node \<Rightarrow> string \<Rightarrow> entry_status" where
  "entry_status_of load fs file =
     (case node_at fs (transpilers_path @ [file]) of
        Some (Dir _) \<Rightarrow>
          (case node_at fs (transpilers_path @ [file, ''lib'']) of
             Some (Dir _) \<Rightarrow>
               (case node_at fs (transpilers_path @ [file, ''lib'', ''config.yml'']) of
                  Some (File c) \<Rightarrow>
                    (case load (transpilers_path @ [file, ''lib'', ''config.yml'']) c of
                       Inr config \<Rightarrow> Engine config
                     | Inl e \<Rightarrow> Unparsable)
                | _ \<Rightarrow> Ignored)
           | _ \<Rightarrow> Ignored)
      | _ \<Rightarrow> Ignored)"

definition engines_of :: "loader \<Rightarrow> node \<Rightarrow> string list \<Rightarrow> lsp_config list" where
  "engines_of load fs all_files =
     concat (map (\<lambda>file. case entry_status_of load fs file of Engine c \<Rightarrow> [c] | _ \<Rightarrow> []) all_files)"

definition unparsable_logged :: "loader \<Rightarrow> node \<Rightarrow> string list \<Rightarrow> string list" where
  "unparsable_logged load fs all_files =
     concat (map (\<lambda>file. case entry_status_of load fs file of
                            Unparsable \<Rightarrow> [''Could not load config: '' @ path_str (transpilers_path @ [file])]
                          | _ \<Rightarrow> []) all_files)"

text \<open>The failure of \<open>load\<close> that the source handles: a \<open>ValueError\<close>.\<close>

definition load_fails_with_ValueError :: "loader \<Rightarrow> node \<Rightarrow> string \<Rightarrow> bool" where
  "load_fails_with_ValueError load fs file =
     (case node_at fs (transpilers_path @ [file, ''lib'', ''config.yml'']) of
        Some (File c) \<Rightarrow>
          (case load (transpilers_path @ [file, ''lib'', ''config.yml'']) c of
             Inr config \<Rightarrow> True
           | Inl e \<Rightarrow> is_ValueError e)
      | _ \<Rightarrow> True)"

section \<open>What lies outside the program\<close>

text \<open>
  The answers of the network and of the processes that the installers start are
  parameters: \<open>urlopen\<close> and \<open>urlretrieve\<close> give, for a URL, the body or the exception
  raised; \<open>run\<close> gives, for a command line and the directory it runs in, the exit status
  (or the exception of \<open>subprocess.run\<close> itself) and what the process made of that
  directory; \<open>copytree\<close> is \<open>shutil.copytree(src, dst, dirs_exist_ok=True)\<close>, giving the
  destination afterwards and the error it raises at its end, if any. A process writes only
  below the directory it runs in.
\<close>

record env =
  on_win32 :: bool
  sys_executable :: string
  utc_now :: string
  urlopen :: "string \<Rightarrow> error + content"
  urlretrieve :: "string \<Rightarrow> error + content"
  run :: "string list \<Rightarrow> node \<Rightarrow> (error + int) \<times> node"
  copytree :: "node \<Rightarrow> node \<Rightarrow> error option \<times> node"

definition of_result :: "error + 'a \<Rightarrow> 'a io" where
  "of_result r w = (r, w)"

definition fs_read :: "(node \<Rightarrow> error + 'a) \<Rightarrow> 'a io" where
  "fs_read f w = (f (files w), w)"

definition when_fs :: "(node \<Rightarrow> bool) \<Rightarrow> unit io \<Rightarrow> unit io" where
  "when_fs c m w = (if c (files w) then m w else (Inr (), w))"

text \<open>\<open>subprocess.run(args, cwd=...)\<close>, also after \<open>os.chdir\<close>: the directory must
  exist.\<close>

definition run_in :: "env \<Rightarrow> string list \<Rightarrow> path \<Rightarrow> int io" where
  "run_in env args cwd w =
     (case node_at (files w) cwd of
        None \<Rightarrow> (Inl FileNotFoundError, w)
      | Some (File _) \<Rightarrow> (Inl NotADirectoryError, w)
      | Some (Dir kids) \<Rightarrow>
          (case run env args (Dir kids) of
             (r, n') \<Rightarrow> (r, \<lparr>files = put cwd (Some n') (files w), calls = calls w @ [Run args]\<rparr>)))"

section \<open>\<open>PypiInstaller\<close>\<close>

text \<open>
  A method that both installers define carries the name of its class
  (\<open>PypiInstaller_install\<close>, \<open>MavenInstaller_install\<close>); the fields that the source sets
  on \<open>self\<close> on the way (\<open>_product_path\<close>, \<open>_install_path\<close>, \<open>_venv\<close>,
  \<open>_site_packages\<close>) are passed as arguments.

  \<open>get_pypi_artifact_version\<close>. Only \<open>HTTPError\<close> is caught. The declared result is
  \<open>str | None\<close>; a version in the body that is neither is outside that type and ends
  the model with \<open>OtherError\<close>.
\<close>

definition get_pypi_artifact_version :: "env \<Rightarrow> string \<Rightarrow> string option io" where
  "get_pypi_artifact_version env product_name =
     (let url = ''https://pypi.org/pypi/'' @ product_name @ ''/json''
      in try_except
           (and_then (record_call (UrlOpen url))
              (\<lambda>_. case urlopen env url of
                     Inl e \<Rightarrow> raise e
                   | Inr text \<Rightarrow>
                       (case loads text of
                          Inl e \<Rightarrow> raise e
                        | Inr data \<Rightarrow>
                            (case dict_get data ''info'' (JObject []) of
                               Inl e \<Rightarrow> raise e
                             | Inr info \<Rightarrow>
                                 (case dict_get info ''version'' JNull of
                                    Inl e \<Rightarrow> raise e
                                  | Inr JNull \<Rightarrow> return None
                                  | Inr (JString v) \<Rightarrow> return (Some v)
                                  | Inr _ \<Rightarrow> raise (OtherError ''version is not a str''))))))
           is_HTTPError
           (return None))"

definition join_path :: "string \<Rightarrow> path \<Rightarrow> string" where
  "join_path sep p = (case p of [] \<Rightarrow> ''.'' | c # cs \<Rightarrow> c @ concat (map (\<lambda>d. sep @ d) cs))"

definition relative_str :: "env \<Rightarrow> path \<Rightarrow> path \<Rightarrow> string" where
  "relative_str env base p = join_path (if on_win32 env then [CHR 0x5C] else ''/'') (drop (length base) p)"

fun first_site_packages :: "node \<Rightarrow> path \<Rightarrow> string list \<Rightarrow> error + path" where
  "first_site_packages fs lib [] = Inl ValueError"
| "first_site_packages fs lib (dir # dirs) =
     (if prefix ''python'' dir \<and> path_exists fs (lib @ [dir, ''site-packages''])
      then Inr (lib @ [dir, ''site-packages''])
      else first_site_packages fs lib dirs)"

definition locate_site_packages :: "env \<Rightarrow> path \<Rightarrow> node \<Rightarrow> error + path" where
  "locate_site_packages env venv fs =
     (if on_win32 env then
        (if path_exists fs (venv @ [''Lib'', ''site-packages''])
         then Inr (venv @ [''Lib'', ''site-packages''])
         else Inl ValueError)
      else
        (case listdir fs (venv @ [''lib'']) of
           Inl e \<Rightarrow> Inl e
         | Inr dirs \<Rightarrow> first_site_packages fs (venv @ [''lib'']) dirs))"

text \<open>\<open>_create_venv\<close> returns the \<open>site-packages\<close> it located (the source keeps it in
  \<open>self._site_packages\<close>); the working directory, restored in \<open>finally\<close>, is not part of
  the state.\<close>

definition create_venv :: "env \<Rightarrow> path \<Rightarrow> path io" where
  "create_venv env install_path =
     (let venv = install_path @ [''.venv''];
          cmd_line = sys_executable env @ '' -m venv .venv''
      in and_then (run_in env [cmd_line] install_path)
           (\<lambda>returncode.
              if returncode \<noteq> 0 then raise CalledProcessError
              else fs_read (locate_site_packages env venv)))"

definition locate_pip :: "env \<Rightarrow> path \<Rightarrow> path" where
  "locate_pip env venv =
     (if on_win32 env then venv @ [''Scripts'', ''pip3.exe''] else venv @ [''bin'', ''pip3''])"

definition install_from_pip :: "env \<Rightarrow> path \<Rightarrow> path \<Rightarrow> string \<Rightarrow> unit io" where
  "install_from_pip env install_path site_packages pypi_name =
     (let venv = install_path @ [''.venv''];
          pip = locate_pip env venv;
          args = [relative_str env install_path pip, ''install'', pypi_name, ''-t'',
                  relative_str env install_path site_packages]
      in and_then (fs_read (\<lambda>fs. if \<not> path_exists fs pip then Inl FileNotFoundError else Inr ()))
           (\<lambda>_. and_then (run_in env args install_path)
              (\<lambda>returncode. if returncode \<noteq> 0 then raise CalledProcessError else return ())))"

definition copy_lsp_resources :: "env \<Rightarrow> path \<Rightarrow> path \<Rightarrow> unit io" where
  "copy_lsp_resources env install_path site_packages w =
     (let lsp = site_packages @ [''lsp'']
      in case node_at (files w) lsp of
           None \<Rightarrow> (Inl ValueError, w)
         | Some (File _) \<Rightarrow> (Inl NotADirectoryError, w)
         | Some (Dir kids) \<Rightarrow>
             (case copytree env (Dir kids)
                     (case node_at (files w) install_path of None \<Rightarrow> Dir [] | Some dst \<Rightarrow> dst) of
                (err, dst') \<Rightarrow>
                  ((case err of None \<Rightarrow> Inr () | Some e \<Rightarrow> Inl e),
                   w\<lparr>files := put install_path (Some dst') (files w)\<rparr>)))"

definition run_custom_installer :: "env \<Rightarrow> path \<Rightarrow> path \<Rightarrow> unit io" where
  "run_custom_installer env install_path installer =
     and_then (run_in env [path_str installer] install_path)
       (\<lambda>returncode. if returncode \<noteq> 0 then raise CalledProcessError else return ())"

definition post_install :: "env \<Rightarrow> path \<Rightarrow> path \<Rightarrow> string \<Rightarrow> path option io" where
  "post_install env product_path install_path version =
     (let config = install_path @ [''config.yml''];
          install_ext = (if on_win32 env then ''ps1'' else ''sh'');
          installer = install_path @ [''installer.'' @ install_ext]
      in and_then (fs_read (\<lambda>fs. if \<not> path_exists fs config then Inl ValueError else Inr ()))
           (\<lambda>_. and_then (\<lambda>w. if path_exists (files w) installer
                               then run_custom_installer env install_path installer w
                               else (Inr (), w))
              (\<lambda>_. and_then (store_product_state (utc_now env) product_path version)
                 (\<lambda>_. return (Some install_path)))))"

definition PypiInstaller_unsafe_install_latest_version ::
  "env \<Rightarrow> path \<Rightarrow> path \<Rightarrow> string \<Rightarrow> string \<Rightarrow> path option io" where
  "PypiInstaller_unsafe_install_latest_version env product_path install_path pypi_name version =
     and_then (create_venv env install_path)
       (\<lambda>site_packages.
          and_then (install_from_pip env install_path site_packages pypi_name)
            (\<lambda>_. and_then (copy_lsp_resources env install_path site_packages)
               (\<lambda>_. post_install env product_path install_path version)))"

definition PypiInstaller_install_latest_version ::
  "env \<Rightarrow> string \<Rightarrow> string \<Rightarrow> string \<Rightarrow> path option io" where
  "PypiInstaller_install_latest_version env product_name pypi_name version =
     (let product_path = transpilers_path @ [product_name];
          backup_path = transpilers_path @ [product_name @ ''-saved''];
          install_path = product_path @ [''lib'']
      in and_then (when_fs (\<lambda>fs. path_exists fs product_path)
                     (fs_op (rename (on_win32 env) product_path backup_path)))
           (\<lambda>_. and_then (fs_op (mkdir_parents product_path))
              (\<lambda>_. and_then (fs_op (mkdir install_path))
                 (\<lambda>_. try_except
                        (and_then (PypiInstaller_unsafe_install_latest_version env product_path
                                     install_path pypi_name version)
                           (\<lambda>result.
                              and_then (when_fs (\<lambda>fs. path_exists fs backup_path)
                                          (fs_op (rmtree backup_path)))
                                (\<lambda>_. return result)))
                        (\<lambda>e. e = CalledProcessError \<or> is_ValueError e)
                        (and_then (fs_op (rmtree product_path))
                           (\<lambda>_. and_then (when_fs (\<lambda>fs. path_exists fs backup_path)
                                            (fs_op (rename (on_win32 env) backup_path product_path)))
                              (\<lambda>_. return None)))))))"

definition PypiInstaller_install_checking_versions :: "env \<Rightarrow> string \<Rightarrow> string \<Rightarrow> path option io" where
  "PypiInstaller_install_checking_versions env product_name pypi_name =
     and_then (get_pypi_artifact_version env pypi_name)
       (\<lambda>latest_version.
          case latest_version of
            None \<Rightarrow> return None
          | Some latest \<Rightarrow>
              and_then (fs_read (\<lambda>fs. get_installed_version fs product_name True))
                (\<lambda>installed_version.
                   if installed_version = Some latest then return None
                   else PypiInstaller_install_latest_version env product_name pypi_name latest))"

definition PypiInstaller_install :: "env \<Rightarrow> string \<Rightarrow> string \<Rightarrow> path option io" where
  "PypiInstaller_install env product_name pypi_name =
     PypiInstaller_install_checking_versions env product_name pypi_name"

definition install_from_pypi :: "env \<Rightarrow> string \<Rightarrow> string \<Rightarrow> path option io" where
  "install_from_pypi env product_name pypi_name = PypiInstaller_install env product_name pypi_name"

section \<open>\<open>MavenInstaller\<close>\<close>

definition maven_central_repo :: string where
  "maven_central_repo = ''https://repo.maven.apache.org/maven2/''"

definition artifact_base_url :: "string \<Rightarrow> string \<Rightarrow> string" where
  "artifact_base_url group_id artifact_id =
     (let group_path = map (\<lambda>c. if c = CHR ''.'' then CHR ''/'' else c) group_id
      in maven_central_repo @ group_path @ ''/'' @ artifact_id @ ''/'')"

definition artifact_metadata_url :: "string \<Rightarrow> string \<Rightarrow> string" where
  "artifact_metadata_url group_id artifact_id =
     artifact_base_url group_id artifact_id @ ''maven-metadata.xml''"

definition artifact_url :: "string \<Rightarrow> string \<Rightarrow> string \<Rightarrow> string option \<Rightarrow> string \<Rightarrow> string" where
  "artifact_url group_id artifact_id version classifier extension =
     (let classifier' = (case classifier of None \<Rightarrow> [] | Some c \<Rightarrow> if c = [] then [] else ''-'' @ c)
      in artifact_base_url group_id artifact_id @ version @ ''/'' @ artifact_id @ ''-'' @ version
           @ classifier' @ ''.'' @ extension)"

definition get_current_maven_artifact_version :: "env \<Rightarrow> string \<Rightarrow> string \<Rightarrow> string option io" where
  "get_current_maven_artifact_version env group_id artifact_id =
     (let url = artifact_metadata_url group_id artifact_id
      in and_then (record_call (UrlOpen url))
           (\<lambda>_. case urlopen env url of
                  Inl e \<Rightarrow> if is_HTTPError e then return None else raise e
                | Inr text \<Rightarrow> of_result (extract_latest_release_version text)))"

text \<open>\<open>shutil.move\<close> of a regular file: into the destination when that is a directory,
  else onto it.\<close>

definition move_file :: "path \<Rightarrow> path \<Rightarrow> node \<Rightarrow> error + node" where
  "move_file src dst fs =
     (case node_at fs src of
        None \<Rightarrow> Inl FileNotFoundError
      | Some (Dir _) \<Rightarrow> Inl IsADirectoryError
      | Some (File c) \<Rightarrow>
          (let real_dst = (if is_dir fs dst then dst @ [last src] else dst)
           in if is_dir fs dst \<and> path_exists fs real_dst then Inl OSError
              else if \<not> is_dir fs (butlast real_dst) then Inl FileNotFoundError
              else Inr (put real_dst (Some (File c)) (put src None fs))))"

text \<open>The file that \<open>urlretrieve\<close> left in the temporary directory, which is outside the
  tree, moved to a destination that does not exist. The move raises when the directory of
  the destination does not exist: \<open>FileNotFoundError\<close> here, also where a regular file
  stands in the way and Python raises \<open>NotADirectoryError\<close>; no handler of the module
  tells the two apart.\<close>

definition move_download :: "content \<Rightarrow> path \<Rightarrow> node \<Rightarrow> error + node" where
  "move_download c dst fs =
     (if is_dir fs (butlast dst) then Inr (put dst (Some (File c)) fs) else Inl FileNotFoundError)"

definition download_artifact_from_maven ::
  "env \<Rightarrow> string \<Rightarrow> string \<Rightarrow> string \<Rightarrow> path \<Rightarrow> string option \<Rightarrow> string \<Rightarrow> bool io" where
  "download_artifact_from_maven env group_id artifact_id version target classifier extension w =
     (if path_exists (files w) target then (Inr True, w)
      else
        (let url = artifact_url group_id artifact_id version classifier extension
         in and_then (record_call (UrlRetrieve url))
              (\<lambda>_. case urlretrieve env url of
                     Inl e \<Rightarrow> if is_URLError e then return False else raise e
                   | Inr c \<Rightarrow> and_then (fs_op (move_download c target)) (\<lambda>_. return True)) w))"

definition rmdir :: "path \<Rightarrow> node \<Rightarrow> error + node" where
  "rmdir p fs =
     (case node_at fs p of
        None \<Rightarrow> Inl FileNotFoundError
      | Some (File _) \<Rightarrow> Inl NotADirectoryError
      | Some (Dir kids) \<Rightarrow> if kids = [] then Inr (put p None fs) else Inl OSError)"

definition open_zip :: "path \<Rightarrow> node \<Rightarrow> error + (string \<times> content) list" where
  "open_zip p fs =
     (case node_at fs p of
        None \<Rightarrow> Inl FileNotFoundError
      | Some (Dir _) \<Rightarrow> Inl IsADirectoryError
      | Some (File (ZipArchive members)) \<Rightarrow> Inr members
      | Some (File _) \<Rightarrow> Inl BadZipFile)"

definition copy_lsp_config :: "path \<Rightarrow> path \<Rightarrow> unit io" where
  "copy_lsp_config install_path jar_file_path =
     and_then (fs_read (open_zip jar_file_path))
       (\<lambda>members.
          case map_of members ''lsp/config.yml'' of
            None \<Rightarrow> raise KeyError
          | Some c \<Rightarrow>
              and_then (when_fs (\<lambda>fs. \<not> path_exists fs (install_path @ [''lsp'']))
                          (fs_op (mkdir (install_path @ [''lsp'']))))
                (\<lambda>_. and_then (fs_op (write_file (install_path @ [''lsp'', ''config.yml'']) c))
                   (\<lambda>_. and_then (fs_op (move_file (install_path @ [''lsp'', ''config.yml''])
                                           (install_path @ [''config.yml''])))
                      (\<lambda>_. fs_op (rmdir (install_path @ [''lsp'']))))))"

definition MavenInstaller_unsafe_install_version ::
  "env \<Rightarrow> path \<Rightarrow> string \<Rightarrow> string \<Rightarrow> string \<Rightarrow> bool io" where
  "MavenInstaller_unsafe_install_version env install_path group_id artifact_id version =
     (let jar_file_path = install_path @ [artifact_id @ ''.jar'']
      in and_then (download_artifact_from_maven env group_id artifact_id version jar_file_path
                     None ''jar'')
           (\<lambda>success.
              if \<not> success then return False
              else and_then (copy_lsp_config install_path jar_file_path) (\<lambda>_. return True)))"

text \<open>\<open>_install_version\<close>. The body of \<open>try\<close> either returns from the function
  (\<open>Some result\<close>) or falls through to the rollback (\<open>None\<close>), as a caught exception
  does.\<close>

definition MavenInstaller_install_version ::
  "env \<Rightarrow> string \<Rightarrow> string \<Rightarrow> string \<Rightarrow> string \<Rightarrow> path option io" where
  "MavenInstaller_install_version env product_name group_id artifact_id version =
     (let product_path = transpilers_path @ [product_name];
          backup_path = transpilers_path @ [product_name @ ''-saved''];
          install_path = product_path @ [''lib'']
      in and_then (when_fs (\<lambda>fs. path_exists fs backup_path) (fs_op (rmtree backup_path)))
           (\<lambda>_. and_then (when_fs (\<lambda>fs. path_exists fs product_path)
                            (fs_op (rename (on_win32 env) product_path backup_path)))
              (\<lambda>_. and_then (fs_op (mkdir_parents product_path))
                 (\<lambda>_. and_then (fs_op (mkdir install_path))
                    (\<lambda>_. and_then
                           (try_except
                              (and_then (MavenInstaller_unsafe_install_version env install_path
                                           group_id artifact_id version)
                                 (\<lambda>ok. if ok then
                                          and_then (store_product_state (utc_now env) product_path version)
                                            (\<lambda>_. and_then (when_fs (\<lambda>fs. path_exists fs backup_path)
                                                             (fs_op (rmtree backup_path)))
                                               (\<lambda>_. return (Some (Some product_path))))
                                        else return None))
                              (\<lambda>e. e = KeyError \<or> is_ValueError e)
                              (return None))
                           (\<lambda>returned.
                              case returned of
                                Some result \<Rightarrow> return result
                              | None \<Rightarrow>
                                  and_then (fs_op (rmtree product_path))
                                    (\<lambda>_. and_then (when_fs (\<lambda>fs. path_exists fs backup_path)
                                                     (fs_op (rename (on_win32 env) backup_path product_path)))
                                       (\<lambda>_. return None))))))))"

definition MavenInstaller_install_checking_versions ::
  "env \<Rightarrow> string \<Rightarrow> string \<Rightarrow> string \<Rightarrow> path option io" where
  "MavenInstaller_install_checking_versions env product_name group_id artifact_id =
     and_then (get_current_maven_artifact_version env group_id artifact_id)
       (\<lambda>latest_version.
          case latest_version of
            None \<Rightarrow> return None
          | Some latest \<Rightarrow>
              and_then (fs_read (\<lambda>fs. get_installed_version fs product_name True))
                (\<lambda>installed_version.
                   if installed_version = Some latest then return None
                   else MavenInstaller_install_version env product_name group_id artifact_id latest))"

definition MavenInstaller_install :: "env \<Rightarrow> string \<Rightarrow> string \<Rightarrow> string \<Rightarrow> path option io" where
  "MavenInstaller_install env product_name group_id artifact_id =
     MavenInstaller_install_checking_versions env product_name group_id artifact_id"

definition install_from_maven :: "env \<Rightarrow> string \<Rightarrow> string \<Rightarrow> string \<Rightarrow> path option io" where
  "install_from_maven env product_name group_id artifact_id =
     MavenInstaller_install env product_name group_id artifact_id"

section \<open>Writes below a directory\<close>

text \<open>
  \<open>confined P a b\<close>: the tree \<open>b\<close> differs from \<open>a\<close> only below \<open>P\<close>. The directories
  on the way to \<open>P\<close>, and \<open>P\<close> itself, are still directories, and every path that
  neither leads to \<open>P\<close> nor lies below it holds what it held. An operation writes below
  \<open>P\<close> when every run of it, returning or raising, leaves the files so.
\<close>

definition confined :: "path \<Rightarrow> node \<Rightarrow> node \<Rightarrow> bool" where
  "confined P a b \<longleftrightarrow>
     (\<forall>q. prefix q P \<and> is_dir a q \<longrightarrow> is_dir b q)
     \<and> (\<forall>q. \<not> prefix P q \<and> \<not> prefix q P \<longrightarrow> node_at b q = node_at a q)"

definition writes_below :: "path \<Rightarrow> 'a io \<Rightarrow> bool" where
  "writes_below P m \<longleftrightarrow> (\<forall>w. confined P (files w) (files (snd (m w))))"

text \<open>The entries of the engines root other than a product and its backup hold in \<open>b\<close>
  what they hold in \<open>a\<close>.\<close>

definition others_untouched :: "string \<Rightarrow> node \<Rightarrow> node \<Rightarrow> bool" where
  "others_untouched product_name a b \<longleftrightarrow>
     (\<forall>c r. c \<noteq> product_name \<and> c \<noteq> product_name @ ''-saved''
        \<longrightarrow> node_at b (transpilers_path @ c # r) = node_at a (transpilers_path @ c # r))"

text \<open>The version record that \<open>_store_product_state\<close> writes.\<close>

definition written_record :: "env \<Rightarrow> string \<Rightarrow> node" where
  "written_record env version =
     File (JsonText (JObject [(''version'', JString (''v'' @ version)), (''date'', JString (utc_now env))]))"

text \<open>
  The three states of an install attempt that the specification names. \<open>prepared\<close>:
  what the backup and prepare phase leaves, a fresh product directory holding an empty
  \<open>lib\<close>, the previous product directory, if any, under the backup path. \<open>rolled_back\<close>:
  the call returned nothing, the product path holds what it held before the call, and no
  backup is left. \<open>committed\<close>: the call returned the installed path, the installed
  version reads as the requested one, and no backup is left. In each the other entries of
  the engines root are as before the call.
\<close>

definition prepared :: "string \<Rightarrow> node \<Rightarrow> node \<Rightarrow> bool" where
  "prepared product_name fs fs' \<longleftrightarrow>
     node_at fs' (transpilers_path @ [product_name]) = Some (Dir [(''lib'', Dir [])])
     \<and> node_at fs' (transpilers_path @ [product_name @ ''-saved''])
         = node_at fs (transpilers_path @ [product_name])
     \<and> others_untouched product_name fs fs'"

definition rolled_back :: "string \<Rightarrow> world \<Rightarrow> (error + path option) \<times> world \<Rightarrow> bool" where
  "rolled_back product_name w outcome \<longleftrightarrow>
     fst outcome = Inr None
     \<and> node_at (files (snd outcome)) (transpilers_path @ [product_name])
         = node_at (files w) (transpilers_path @ [product_name])
     \<and> node_at (files (snd outcome)) (transpilers_path @ [product_name @ ''-saved'']) = None
     \<and> others_untouched product_name (files w) (files (snd outcome))"

definition committed ::
  "string \<Rightarrow> string \<Rightarrow> path \<Rightarrow> world \<Rightarrow> (error + path option) \<times> world \<Rightarrow> bool" where
  "committed product_name version installed w outcome \<longleftrightarrow>
     fst outcome = Inr (Some installed)
     \<and> get_installed_version (files (snd outcome)) product_name True = Inr (Some version)
     \<and> node_at (files (snd outcome)) (transpilers_path @ [product_name @ ''-saved'']) = None
     \<and> others_untouched product_name (files w) (files (snd outcome))"

section \<open>Concrete inputs\<close>

text \<open>The tree under the home directory with the given entries in the engines root.\<close>

definition home_with :: "(string \<times> node) list \<Rightarrow> node" where
  "home_with engines =
     Dir [(''.databricks'', Dir [(''labs'', Dir [(''remorph-transpilers'', Dir engines)])])]"

definition version_record :: "string \<Rightarrow> node" where
  "version_record v =
     File (JsonText (JObject [(''version'', JString v), (''date'', JString ''2025-01-01T00:00:00+00:00'')]))"

text \<open>An engine \<open>demo\<close> whose version record is not JSON, lacks the version field, or
  holds a version without the marker.\<close>

definition not_json_home :: node where
  "not_json_home =
     home_with [(''demo'', Dir [(''state'', Dir [(''version.json'', File (Bytes ''not json''))])])]"

definition no_version_home :: node where
  "no_version_home =
     home_with [(''demo'', Dir [(''state'',
       Dir [(''version.json'', File (JsonText (JObject [(''date'', JString ''2025-01-01'')])))])])]"

definition unmarked_version_home :: node where
  "unmarked_version_home =
     home_with [(''demo'', Dir [(''state'', Dir [(''version.json'', version_record ''1.2.3'')])])]"

definition prepared_world :: world where
  "prepared_world = \<lparr>files = home_with [(''demo'', Dir [(''lib'', Dir [])])], calls = []\<rparr>"

text \<open>An engines root with an engine, an entry whose \<open>config.yml\<close> does not load, and an
  entry without \<open>lib\<close>; a loader that accepts JSON-free text only.\<close>

definition demo_option :: lsp_config_option where
  "demo_option = \<lparr>opt_flag = ''-experimental'', opt_method = CONFIRM,
     opt_prompt = Some ''Enable experimental features?'', opt_choices = None, opt_default = None\<rparr>"

definition other_option :: lsp_config_option where
  "other_option = \<lparr>opt_flag = ''-overrides'', opt_method = QUESTION,
     opt_prompt = Some ''Overrides file'', opt_choices = None, opt_default = Some ''none''\<rparr>"

definition demo_loader :: "(string \<times> lsp_config_option list) list \<Rightarrow> loader" where
  "demo_loader opts p c =
     (case c of
        Bytes s \<Rightarrow>
          if s = ''unparsable'' then Inl ValueError
          else Inr \<lparr>cfg_path = p, cfg_name = s, cfg_dialects = [''snowflake''], cfg_options = opts\<rparr>
      | _ \<Rightarrow> Inl ValueError)"

definition discovery_home :: node where
  "discovery_home =
     home_with
       [(''broken'', Dir [(''lib'', Dir [(''config.yml'', File (Bytes ''unparsable''))])]),
        (''notes.txt'', File (Bytes ''hello'')),
        (''empty'', Dir []),
        (''demo'', Dir [(''lib'', Dir [(''config.yml'', File (Bytes ''Demo''))])])]"

text \<open>A loader that fails on the same unparsable file with an exception that is not a
  \<open>ValueError\<close>, as a YAML parser does on text that is not YAML.\<close>

definition strict_loader :: loader where
  "strict_loader p c =
     (case c of
        Bytes s \<Rightarrow>
          if s = ''unparsable'' then Inl (OtherError ''YAMLError'')
          else Inr \<lparr>cfg_path = p, cfg_name = s, cfg_dialects = [''snowflake''], cfg_options = []\<rparr>
      | _ \<Rightarrow> Inl ValueError)"

text \<open>Environments: no network at all; a registry that answers every request with an
  HTTP error; a Maven repository that serves metadata naming version 1.2.3 and, as the
  artifact, a page that is not an archive.\<close>

definition offline_env :: env where
  "offline_env =
     \<lparr>on_win32 = False, sys_executable = ''/usr/bin/python3'',
      utc_now = ''2025-01-01T00:00:00+00:00'',
      urlopen = (\<lambda>url. Inl URLError), urlretrieve = (\<lambda>url. Inl URLError),
      run = (\<lambda>args n. (Inr 0, n)), copytree = (\<lambda>src dst. (None, dst))\<rparr>"

definition not_found_env :: env where
  "not_found_env = offline_env\<lparr>urlopen := (\<lambda>url. Inl HTTPError), urlretrieve := (\<lambda>url. Inl HTTPError)\<rparr>"

definition pom_env :: env where
  "pom_env = offline_env\<lparr>urlretrieve := (\<lambda>url. Inr (Bytes ''<project/>''))\<rparr>"

text \<open>A connection that is reset while the artifact is read: \<open>urlretrieve\<close> raises an
  \<open>OSError\<close> that is not a \<open>URLError\<close>.\<close>

definition reset_env :: env where
  "reset_env = offline_env\<lparr>urlretrieve := (\<lambda>url. Inl OSError)\<rparr>"

definition pom_path :: path where
  "pom_path = [''tmp'', ''pom.xml'']"

definition tmp_world :: "(string \<times> node) list \<Rightarrow> world" where
  "tmp_world entries = \<lparr>files = Dir [(''tmp'', Dir entries)], calls = []\<rparr>"

text \<open>A world in which the engine \<open>demo\<close> is installed at version 1.0.0; one that holds
  only the backup of an earlier, interrupted attempt; an environment in which every
  process exits with status 1.\<close>

definition demo_engine :: node where
  "demo_engine =
     Dir [(''lib'', Dir [(''config.yml'', File (Bytes ''Demo''))]),
          (''state'', Dir [(''version.json'', version_record ''v1.0.0'')])]"

definition installed_world :: world where
  "installed_world = \<lparr>files = home_with [(''demo'', demo_engine)], calls = []\<rparr>"

definition stale_backup_world :: world where
  "stale_backup_world = \<lparr>files = home_with [(''demo-saved'', demo_engine)], calls = []\<rparr>"

definition failing_process_env :: env where
  "failing_process_env = offline_env\<lparr>run := (\<lambda>args n. (Inr 1, n))\<rparr>"

text \<open>Registries that report 1.0.0 as the latest version of the Pypi package
  \<open>demo-pkg\<close> and of every Maven artifact; their downloads fail.\<close>

definition latest_1_0_0_env :: env where
  "latest_1_0_0_env =
     offline_env\<lparr>urlopen :=
       (\<lambda>url. if url = ''https://pypi.org/pypi/demo-pkg/json''
               then Inr (JsonText (JObject [(''info'', JObject [(''version'', JString ''1.0.0'')])]))
               else Inr (XmlText (Element ''metadata'' None
                      [Element ''versioning'' None [Element ''release'' (Some ''1.0.0'') []]])))\<rparr>"




section \<open>Version resolution from Maven metadata\<close>

lemma concat_below_step:
  "concat (map (below ts) (concat (map (findall_children t) ctx)))
     = concat (map (below (t # ts)) ctx)"
  by (induction ctx) (simp_all add: findall_children_def)

lemma fold_select_Child:
  "fold select (map Child ts) ctx = concat (map (below ts) ctx)"
proof (induction ts arbitrary: ctx)
  case Nil
  show ?case by (induction ctx) simp_all
next
  case (Cons t ts)
  have "fold select (map Child (t # ts)) ctx
      = fold select (map Child ts) (concat (map (findall_children t) ctx))"
    by simp
  also have "\<dots> = concat (map (below ts) (concat (map (findall_children t) ctx)))"
    by (rule Cons.IH)
  also have "\<dots> = concat (map (below (t # ts)) ctx)"
    by (rule concat_below_step)
  finally show ?case .
qed

lemma iterfind_Child: "iterfind root (map Child ts) = below ts root"
  by (simp add: iterfind_def fold_select_Child)

lemma findtext_two:
  "findtext root [Child a, Child b] =
     (case below [a, b] root of [] \<Rightarrow> None | e # _ \<Rightarrow> Some (text_of e))"
proof -
  have "iterfind root [Child a, Child b] = below [a, b] root"
    using iterfind_Child [of root "[a, b]"] by simp
  then show ?thesis
    by (simp only: findtext_def text_of_def)
qed

lemma concat_below_Nil: "concat (map (below []) xs) = xs"
  by (induction xs) simp_all

lemma below_single: "below [t] e = findall_children t e"
  by (simp add: findall_children_def concat_below_Nil)

lemma iterfind_last_version:
  "iterfind root [Child ''versioning'', Child ''versions'', ChildLast ''version'']
     = last_versions root"
proof -
  have "iterfind root [Child ''versioning'', Child ''versions'', ChildLast ''version'']
      = select (ChildLast ''version'') (iterfind root (map Child [''versioning'', ''versions'']))"
    by (simp add: iterfind_def)
  also have "\<dots> = select (ChildLast ''version'') (below [''versioning'', ''versions''] root)"
    by (simp only: iterfind_Child)
  also have "\<dots> = last_versions root"
    by (simp only: last_versions_def below_single select.simps)
  finally show ?thesis .
qed

lemma first_label_release_latest:
  "first_label root [''release'', ''latest''] =
     (case below [''versioning'', ''release''] root of
        r # _ \<Rightarrow> Some (text_of r)
      | [] \<Rightarrow>
         (case below [''versioning'', ''latest''] root of
            l # _ \<Rightarrow> Some (text_of l)
          | [] \<Rightarrow> None))"
proof (cases "below [''versioning'', ''release''] root")
  case (Cons r rs)
  then show ?thesis
    by (simp only: first_label.simps findtext_two list.case option.case)
next
  case Nil
  show ?thesis
  proof (cases "below [''versioning'', ''latest''] root")
    case (Cons l ls)
    with Nil show ?thesis
      by (simp only: first_label.simps findtext_two list.case option.case)
  next
    case Nil2: Nil
    with Nil show ?thesis
      by (simp only: first_label.simps findtext_two list.case option.case)
  qed
qed

lemma findtext_last_version:
  "findtext root [Child ''versioning'', Child ''versions'', ChildLast ''version''] =
     (case last_versions root of [] \<Rightarrow> None | v # _ \<Rightarrow> Some (text_of v))"
  by (simp only: findtext_def iterfind_last_version text_of_def)

text \<open>
  C3. For every well-formed metadata document, version resolution returns the text of
  the first \<open>versioning/release\<close> element if there is one, else that of the first
  \<open>versioning/latest\<close> element, else that of the last \<open>version\<close> under
  \<open>versioning/versions\<close>, and nothing if none of them is present; for the metadata
  that lists only the versions 1.0 and 2.0 it returns 2.0.
\<close>

theorem extract_latest_release_version_priority:
  "extract_latest_release_version (XmlText root) = Inr (resolved_version root)
   \<and> extract_latest_release_version (XmlText versions_only_metadata) = Inr (Some ''2.0'')"
proof
  show "extract_latest_release_version (XmlText root) = Inr (resolved_version root)"
  proof (cases "below [''versioning'', ''release''] root")
    case (Cons r rs)
    then show ?thesis
      by (simp only: extract_latest_release_version_def resolved_version_def
          first_label_release_latest fromstring.simps sum.case list.case option.case)
  next
    case Nil
    show ?thesis
    proof (cases "below [''versioning'', ''latest''] root")
      case (Cons l ls)
      with Nil show ?thesis
        by (simp only: extract_latest_release_version_def resolved_version_def
            first_label_release_latest fromstring.simps sum.case list.case option.case)
    next
      case Nil2: Nil
      with Nil show ?thesis
        by (cases "last_versions root")
          (simp_all only: extract_latest_release_version_def resolved_version_def
            first_label_release_latest findtext_last_version fromstring.simps sum.case
            list.case option.case)
    qed
  qed
next
  show "extract_latest_release_version (XmlText versions_only_metadata) = Inr (Some ''2.0'')"
    by (simp add: extract_latest_release_version_def versions_only_metadata_def findtext_def
        iterfind_def findall_children_def)
qed

section \<open>Lookups after a write\<close>

lemma node_at_put_same:
  "p \<noteq> [] \<Longrightarrow> is_dir fs (butlast p) \<Longrightarrow> node_at (put p v fs) p = v"
proof (induction p v fs rule: put.induct)
  case (1 v n)
  then show ?case by simp
next
  case (2 x p v c)
  then show ?case by (cases p) (simp_all add: is_dir_def)
next
  case (3 x v kids)
  then show ?case by (cases v) (simp_all add: update_conv' delete_conv')
next
  case (4 x y p v kids)
  then show ?case
    by (cases "map_of kids x") (simp_all add: is_dir_def update_conv')
qed

lemma node_at_put_other:
  "\<not> prefix p q \<Longrightarrow> \<not> prefix q p \<Longrightarrow> node_at (put p v fs) q = node_at fs q"
proof (induction p v fs arbitrary: q rule: put.induct)
  case (1 v n)
  then show ?case by simp
next
  case (2 x p v c)
  then show ?case by simp
next
  case (3 x v kids)
  then obtain y q' where q: "q = y # q'" by (cases q) auto
  with 3 have "y \<noteq> x" by auto
  with q show ?case by (cases v) (simp_all add: update_conv' delete_conv')
next
  case (4 x y p v kids)
  then obtain z q' where q: "q = z # q'" by (cases q) auto
  show ?case
  proof (cases "map_of kids x")
    case None
    then show ?thesis by simp
  next
    case (Some k)
    show ?thesis
    proof (cases "z = x")
      case True
      with 4 q Some show ?thesis by (simp add: update_conv')
    next
      case False
      with q Some show ?thesis by (simp add: update_conv')
    qed
  qed
qed

lemma is_dir_put_below:
  "is_dir fs q \<Longrightarrow> strict_prefix q p \<Longrightarrow> is_dir (put p v fs) q"
proof (induction p v fs arbitrary: q rule: put.induct)
  case (1 v n)
  then show ?case by simp
next
  case (2 x p v c)
  then show ?case by simp
next
  case (3 x v kids)
  then have "q = []" by (cases q) (auto simp: strict_prefix_def)
  then show ?case by (simp add: is_dir_def)
next
  case (4 x y p v kids)
  show ?case
  proof (cases q)
    case Nil
    then show ?thesis by (cases "map_of kids x") (simp_all add: is_dir_def)
  next
    case (Cons z q')
    with 4 have z: "z = x" and sp: "strict_prefix q' (y # p)" by (auto simp: strict_prefix_def)
    show ?thesis
    proof (cases "map_of kids x")
      case None
      with 4 Cons z show ?thesis by (simp add: is_dir_def)
    next
      case (Some k)
      with 4(2) Cons z have "is_dir k q'" by (simp add: is_dir_def)
      with 4(1) Some sp have "is_dir (put (y # p) v k) q'" by simp
      with Cons z Some show ?thesis by (simp add: is_dir_def update_conv')
    qed
  qed
qed

lemma node_at_append:
  "node_at fs (p @ q) = (case node_at fs p of None \<Rightarrow> None | Some n \<Rightarrow> node_at n q)"
proof (induction fs p rule: node_at.induct)
  case (1 n)
  then show ?case by simp
next
  case (2 c x p)
  then show ?case by simp
next
  case (3 kids x p)
  then show ?case by (cases "map_of kids x") simp_all
qed

section \<open>The version record\<close>

lemma store_product_state_steps:
  assumes "store_product_state now P v w = (Inr (), w')"
  shows "\<exists>fs1. mkdir (P @ [''state'']) (files w) = Inr fs1
           \<and> write_file (P @ [''state'', ''version.json''])
                (JsonText (JObject [(''version'', JString (''v'' @ v)), (''date'', JString now)])) fs1
              = Inr (files w')
           \<and> calls w' = calls w"
  using assms
  by (auto simp: store_product_state_def and_then_def fs_op_def Let_def split: sum.splits)

lemma store_product_state_written:
  assumes "store_product_state now P v w = (Inr (), w')"
  shows "node_at (files w') (P @ [''state'', ''version.json''])
           = Some (File (JsonText (JObject [(''version'', JString (''v'' @ v)), (''date'', JString now)])))"
proof -
  let ?V = "P @ [''state'', ''version.json'']"
  let ?c = "JsonText (JObject [(''version'', JString (''v'' @ v)), (''date'', JString now)])"
  from store_product_state_steps [OF assms] obtain fs1
    where wr: "write_file ?V ?c fs1 = Inr (files w')" by blast
  then have d: "is_dir fs1 (butlast ?V)" and f: "files w' = put ?V (Some (File ?c)) fs1"
    by (auto simp: write_file_def split: option.splits node.splits if_splits)
  show ?thesis
    unfolding f by (rule node_at_put_same) (use d in simp_all)
qed

lemma get_installed_version_of_record:
  assumes "node_at fs ((if tr then transpilers_path else labs_path) @ [n, ''state'', ''version.json''])
             = Some (File (JsonText (JObject [(''version'', JString (''v'' @ v)), (''date'', JString now)])))"
  shows "get_installed_version fs n tr = Inr (Some v)"
  using assms
  by (simp add: get_installed_version_def path_exists_def read_bytes_def Let_def)

lemma store_product_state_succeeds:
  assumes "is_dir (files w) P"
    and "\<not> path_exists (files w) (P @ [''state''])"
  shows "\<exists>w'. store_product_state now P v w = (Inr (), w')"
proof -
  let ?S = "P @ [''state'']"
  let ?V = "?S @ [''version.json'']"
  let ?fs1 = "put ?S (Some (Dir [])) (files w)"
  let ?c = "JsonText (JObject [(''version'', JString (''v'' @ v)), (''date'', JString now)])"
  have m: "mkdir ?S (files w) = Inr ?fs1"
    using assms by (simp add: mkdir_def)
  have s: "node_at ?fs1 ?S = Some (Dir [])"
    by (rule node_at_put_same) (use assms in simp_all)
  then have d: "is_dir ?fs1 (butlast ?V)" by (simp add: is_dir_def butlast_append)
  have "node_at ?fs1 ?V \<noteq> Some (Dir k)" for k
    using node_at_append [of ?fs1 ?S "[''version.json'']"] s by simp
  then have "write_file ?V ?c ?fs1 = Inr (put ?V (Some (File ?c)) ?fs1)"
    using d by (simp add: write_file_def split: option.splits node.splits)
  with m show ?thesis
    by (simp add: store_product_state_def and_then_def fs_op_def Let_def)
qed

text \<open>
  C2, as the code has it. \<open>get_installed_version\<close> returns nothing, and does not raise,
  when the record file does not exist, when it holds a JSON object without a version
  field, and when the version is a string that does not start with the marker \<open>v\<close>.
\<close>

theorem get_installed_version_absent:
  "(node_at fs ((if tr then transpilers_path else labs_path) @ [n, ''state'', ''version.json'']) = None
      \<longrightarrow> get_installed_version fs n tr = Inr None)
   \<and> (node_at fs ((if tr then transpilers_path else labs_path) @ [n, ''state'', ''version.json''])
        = Some (File (JsonText (JObject kvs))) \<and> map_of kvs ''version'' = None
      \<longrightarrow> get_installed_version fs n tr = Inr None)
   \<and> (node_at fs ((if tr then transpilers_path else labs_path) @ [n, ''state'', ''version.json''])
        = Some (File (JsonText (JObject kvs))) \<and> map_of kvs ''version'' = Some (JString s)
        \<and> \<not> prefix ''v'' s
      \<longrightarrow> get_installed_version fs n tr = Inr None)"
  by (simp add: get_installed_version_def path_exists_def read_bytes_def Let_def)

theorem get_installed_version_absent_witness:
  "node_at (home_with []) (transpilers_path @ [''demo'', ''state'', ''version.json'']) = None
   \<and> get_installed_version (home_with []) ''demo'' True = Inr None
   \<and> node_at no_version_home (transpilers_path @ [''demo'', ''state'', ''version.json''])
        = Some (File (JsonText (JObject [(''date'', JString ''2025-01-01'')])))
   \<and> get_installed_version no_version_home ''demo'' True = Inr None
   \<and> node_at unmarked_version_home (transpilers_path @ [''demo'', ''state'', ''version.json''])
        = Some (version_record ''1.2.3'')
   \<and> \<not> prefix ''v'' ''1.2.3''
   \<and> get_installed_version unmarked_version_home ''demo'' True = Inr None"
proof -
  have a: "node_at (home_with []) (transpilers_path @ [''demo'', ''state'', ''version.json'']) = None"
    by (simp add: home_with_def transpilers_path_def labs_path_def)
  have b: "node_at no_version_home (transpilers_path @ [''demo'', ''state'', ''version.json''])
        = Some (File (JsonText (JObject [(''date'', JString ''2025-01-01'')])))"
    by (simp add: no_version_home_def home_with_def transpilers_path_def labs_path_def)
  have c: "node_at unmarked_version_home (transpilers_path @ [''demo'', ''state'', ''version.json''])
        = Some (version_record ''1.2.3'')"
    by (simp add: unmarked_version_home_def home_with_def transpilers_path_def labs_path_def)
  have c': "node_at unmarked_version_home (transpilers_path @ [''demo'', ''state'', ''version.json''])
        = Some (File (JsonText (JObject [(''version'', JString ''1.2.3''),
             (''date'', JString ''2025-01-01T00:00:00+00:00'')])))"
    using c by (simp add: version_record_def)
  have p: "\<not> prefix ''v'' ''1.2.3''" by simp
  from a get_installed_version_absent [of "home_with []" True "''demo''"]
  have 1: "get_installed_version (home_with []) ''demo'' True = Inr None" by simp
  from b get_installed_version_absent
    [of no_version_home True "''demo''" "[(''date'', JString ''2025-01-01'')]"]
  have 2: "get_installed_version no_version_home ''demo'' True = Inr None" by simp
  from c' p get_installed_version_absent
    [of unmarked_version_home True "''demo''"
      "[(''version'', JString ''1.2.3''), (''date'', JString ''2025-01-01T00:00:00+00:00'')]" "''1.2.3''"]
  have 3: "get_installed_version unmarked_version_home ''demo'' True = Inr None" by simp
  from a b c p 1 2 3 show ?thesis by blast
qed

text \<open>A record file that is not JSON: \<open>json.loads\<close> raises and nothing catches it.\<close>

theorem get_installed_version_not_json_raises:
  "get_installed_version not_json_home ''demo'' True = Inl JSONDecodeError"
  by (simp add: get_installed_version_def path_exists_def read_bytes_def Let_def
      not_json_home_def home_with_def transpilers_path_def labs_path_def)

text \<open>
  C6. Whenever \<open>_store_product_state\<close> writes the record of version \<open>v\<close> for a product,
  \<open>get_installed_version\<close> of that product returns exactly \<open>v\<close>; and it does write it
  when the product directory exists and has no state directory yet.
\<close>

theorem store_then_get_installed_version:
  "(store_product_state now ((if tr then transpilers_path else labs_path) @ [n]) v w = (Inr (), w')
      \<longrightarrow> get_installed_version (files w') n tr = Inr (Some v))
   \<and> (is_dir (files w) ((if tr then transpilers_path else labs_path) @ [n])
       \<and> \<not> path_exists (files w) ((if tr then transpilers_path else labs_path) @ [n] @ [''state''])
      \<longrightarrow> (\<exists>w''. store_product_state now ((if tr then transpilers_path else labs_path) @ [n]) v w
                   = (Inr (), w'')
                 \<and> get_installed_version (files w'') n tr = Inr (Some v)))"
proof -
  define P where "P = (if tr then transpilers_path else labs_path) @ [n]"
  have r: "get_installed_version (files u) n tr = Inr (Some v)"
    if "store_product_state now P v w = (Inr (), u)" for u
  proof (rule get_installed_version_of_record)
    show "node_at (files u) ((if tr then transpilers_path else labs_path) @ [n, ''state'', ''version.json''])
        = Some (File (JsonText (JObject [(''version'', JString (''v'' @ v)), (''date'', JString now)])))"
      using store_product_state_written [OF that] by (simp add: P_def)
  qed
  have "\<exists>u. store_product_state now P v w = (Inr (), u) \<and> get_installed_version (files u) n tr = Inr (Some v)"
    if "is_dir (files w) P" "\<not> path_exists (files w) (P @ [''state''])"
    using store_product_state_succeeds [OF that] r by blast
  with r show ?thesis unfolding P_def append_assoc by blast
qed

theorem store_then_get_installed_version_witness:
  "is_dir (files prepared_world) (transpilers_path @ [''demo''])
   \<and> \<not> path_exists (files prepared_world) (transpilers_path @ [''demo''] @ [''state''])
   \<and> (\<exists>w'. store_product_state ''2025-01-01T00:00:00+00:00'' (transpilers_path @ [''demo'']) ''1.2.3''
              prepared_world = (Inr (), w')
            \<and> get_installed_version (files w') ''demo'' True = Inr (Some ''1.2.3''))"
proof -
  have a: "is_dir (files prepared_world) (transpilers_path @ [''demo''])"
    by (simp add: prepared_world_def home_with_def transpilers_path_def labs_path_def is_dir_def)
  have b: "\<not> path_exists (files prepared_world) (transpilers_path @ [''demo''] @ [''state''])"
    by (simp add: prepared_world_def home_with_def transpilers_path_def labs_path_def path_exists_def)
  from a b store_then_get_installed_version
    [of "''2025-01-01T00:00:00+00:00''" True "''demo''" "''1.2.3''" prepared_world]
  show ?thesis by simp
qed

section \<open>Discovery\<close>

lemma transpiler_config_status:
  assumes "load_fails_with_ValueError load fs file"
  shows "transpiler_config load fs (transpilers_path @ [file]) =
     (case entry_status_of load fs file of
        Ignored \<Rightarrow> (Inr None, [])
      | Unparsable \<Rightarrow> (Inr None, [''Could not load config: '' @ path_str (transpilers_path @ [file])])
      | Engine c \<Rightarrow> (Inr (Some c), []))"
  using assms
  by (auto simp: transpiler_config_def entry_status_of_def load_fails_with_ValueError_def
      is_dir_def Let_def split: option.splits node.splits sum.splits)

lemma configs_of_files_status:
  assumes "\<forall>file \<in> set all_files. load_fails_with_ValueError load fs file"
  shows "configs_of_files load fs all_files
           = (Inr (engines_of load fs all_files), unparsable_logged load fs all_files)"
  using assms
proof (induction all_files)
  case Nil
  then show ?case by (simp add: engines_of_def unparsable_logged_def)
next
  case (Cons f all_files)
  then have h: "load_fails_with_ValueError load fs f"
    and t: "configs_of_files load fs all_files
           = (Inr (engines_of load fs all_files), unparsable_logged load fs all_files)"
    by simp_all
  show ?case
    by (cases "entry_status_of load fs f")
      (simp_all add: transpiler_config_status [OF h] t engines_of_def unparsable_logged_def)
qed

lemma keys_fold_update:
  "fst ` set (fold (\<lambda>config d. AList.update (cfg_name config) config d) cs d0)
     = fst ` set d0 \<union> cfg_name ` set cs"
  by (induction cs arbitrary: d0) (auto simp: dom_update)

lemma discovery_home_configs:
  "all_transpiler_configs (demo_loader opts) discovery_home =
     (Inr [(''Demo'', \<lparr>cfg_path = transpilers_path @ [''demo'', ''lib'', ''config.yml''],
                      cfg_name = ''Demo'', cfg_dialects = [''snowflake''], cfg_options = opts\<rparr>)],
      [''Could not load config: ~/.databricks/labs/remorph-transpilers/broken''])"
  by (simp add: all_transpiler_configs_def iter_all_transpiler_configs_def listdir_def
      path_exists_def transpiler_config_def is_dir_def path_str_def discovery_home_def
      home_with_def transpilers_path_def labs_path_def demo_loader_def)

lemma transpiler_config_other_error:
  assumes "\<not> load_fails_with_ValueError load fs file"
  shows "\<exists>e. \<not> is_ValueError e \<and> transpiler_config load fs (transpilers_path @ [file]) = (Inl e, [])"
proof -
  let ?C = "transpilers_path @ [file, ''lib'', ''config.yml'']"
  from assms obtain c e where c: "node_at fs ?C = Some (File c)"
    and l: "load ?C c = Inl e" and e: "\<not> is_ValueError e"
    by (auto simp: load_fails_with_ValueError_def split: option.splits node.splits sum.splits)
  from c node_at_append [of fs "transpilers_path @ [file]" "[''lib'', ''config.yml'']"]
  have d1: "is_dir fs (transpilers_path @ [file])"
    by (auto simp: is_dir_def split: option.splits node.splits)
  from c node_at_append [of fs "transpilers_path @ [file, ''lib'']" "[''config.yml'']"]
  have d2: "is_dir fs (transpilers_path @ [file, ''lib''])"
    by (auto simp: is_dir_def split: option.splits node.splits)
  from d1 d2 c l e show ?thesis
    by (simp add: transpiler_config_def Let_def)
qed

lemma configs_of_files_abort:
  assumes "\<exists>file \<in> set all_files. \<not> load_fails_with_ValueError load fs file"
  shows "\<exists>e. \<not> is_ValueError e \<and> fst (configs_of_files load fs all_files) = Inl e"
  using assms
proof (induction all_files)
  case Nil
  then show ?case by simp
next
  case (Cons f all_files)
  show ?case
  proof (cases "load_fails_with_ValueError load fs f")
    case False
    from transpiler_config_other_error [OF this] show ?thesis by auto
  next
    case True
    with Cons.prems have "\<exists>file \<in> set all_files. \<not> load_fails_with_ValueError load fs file"
      by simp
    from Cons.IH [OF this] obtain e where e: "\<not> is_ValueError e"
      and r: "fst (configs_of_files load fs all_files) = Inl e" by blast
    from r obtain logged' where r': "configs_of_files load fs all_files = (Inl e, logged')"
      by (cases "configs_of_files load fs all_files") simp
    have "fst (configs_of_files load fs (f # all_files)) = Inl e"
      by (cases "entry_status_of load fs f")
        (simp_all add: transpiler_config_status [OF True] r')
    with e show ?thesis by blast
  qed
qed

text \<open>
  C8, as the code has it. Over the listing of the engines root, when every \<open>config.yml\<close>
  that fails to load fails with a \<open>ValueError\<close> (the class that
  \<open>_transpiler_config\<close> catches), discovery yields exactly the descriptors of the
  entries that are directories with a \<open>lib\<close> subdirectory and a regular file
  \<open>lib/config.yml\<close> that loads, in listing order; an entry whose \<open>config.yml\<close> fails
  to load is logged once and left out, the others are skipped without a message, and the
  scan covers every entry. The names reported are those of the descriptors found. When
  some \<open>config.yml\<close> fails to load with an exception of another class, the scan does not
  complete: discovery raises an exception that is not a \<open>ValueError\<close> and yields no
  descriptors and no names.
\<close>

theorem discovery_enumerates_engines:
  assumes "listdir fs transpilers_path = Inr all_files"
  shows "((\<forall>file \<in> set all_files. load_fails_with_ValueError load fs file)
          \<longrightarrow> iter_all_transpiler_configs load fs
                = (Inr (engines_of load fs all_files), unparsable_logged load fs all_files)
              \<and> all_transpiler_names load fs
                = (Inr (cfg_name ` set (engines_of load fs all_files)),
                   unparsable_logged load fs all_files))
       \<and> ((\<exists>file \<in> set all_files. \<not> load_fails_with_ValueError load fs file)
          \<longrightarrow> (\<exists>e. \<not> is_ValueError e
                 \<and> fst (iter_all_transpiler_configs load fs) = Inl e
                 \<and> fst (all_transpiler_names load fs) = Inl e))"
proof (intro conjI impI)
  from assms have e: "path_exists fs transpilers_path"
    by (auto simp: listdir_def path_exists_def split: option.splits)
  from e assms have u: "iter_all_transpiler_configs load fs = configs_of_files load fs all_files"
    by (simp add: iter_all_transpiler_configs_def)
  {
    assume a: "\<forall>file \<in> set all_files. load_fails_with_ValueError load fs file"
    show i: "iter_all_transpiler_configs load fs
           = (Inr (engines_of load fs all_files), unparsable_logged load fs all_files)"
      using u configs_of_files_status [OF a] by simp
    show "all_transpiler_names load fs
           = (Inr (cfg_name ` set (engines_of load fs all_files)), unparsable_logged load fs all_files)"
      using i keys_fold_update [of "engines_of load fs all_files" "[]"]
      by (simp add: all_transpiler_names_def all_transpiler_configs_def)
  }
  {
    assume "\<exists>file \<in> set all_files. \<not> load_fails_with_ValueError load fs file"
    from configs_of_files_abort [OF this] obtain x where x: "\<not> is_ValueError x"
      and r: "fst (configs_of_files load fs all_files) = Inl x" by blast
    from r u have "fst (iter_all_transpiler_configs load fs) = Inl x" by simp
    moreover from this have "fst (all_transpiler_names load fs) = Inl x"
      by (cases "iter_all_transpiler_configs load fs")
        (simp add: all_transpiler_names_def all_transpiler_configs_def)
    ultimately show "\<exists>e. \<not> is_ValueError e
                 \<and> fst (iter_all_transpiler_configs load fs) = Inl e
                 \<and> fst (all_transpiler_names load fs) = Inl e"
      using x by blast
  }
qed

theorem discovery_enumerates_engines_witness:
  "listdir discovery_home transpilers_path = Inr [''broken'', ''notes.txt'', ''empty'', ''demo'']
   \<and> list_all (load_fails_with_ValueError (demo_loader []) discovery_home)
         [''broken'', ''notes.txt'', ''empty'', ''demo'']
   \<and> iter_all_transpiler_configs (demo_loader []) discovery_home
       = (Inr [\<lparr>cfg_path = transpilers_path @ [''demo'', ''lib'', ''config.yml''], cfg_name = ''Demo'',
                cfg_dialects = [''snowflake''], cfg_options = []\<rparr>],
          [''Could not load config: ~/.databricks/labs/remorph-transpilers/broken''])
   \<and> all_transpiler_names (demo_loader []) discovery_home
       = (Inr {''Demo''}, [''Could not load config: ~/.databricks/labs/remorph-transpilers/broken''])
   \<and> \<not> load_fails_with_ValueError strict_loader discovery_home ''broken''
   \<and> (\<exists>e. \<not> is_ValueError e
         \<and> fst (iter_all_transpiler_configs strict_loader discovery_home) = Inl e
         \<and> fst (all_transpiler_names strict_loader discovery_home) = Inl e)"
proof -
  have a: "listdir discovery_home transpilers_path = Inr [''broken'', ''notes.txt'', ''empty'', ''demo'']"
    by (simp add: listdir_def discovery_home_def home_with_def transpilers_path_def labs_path_def)
  have b: "\<forall>file \<in> set [''broken'', ''notes.txt'', ''empty'', ''demo''].
      load_fails_with_ValueError (demo_loader []) discovery_home file"
    by (simp add: load_fails_with_ValueError_def discovery_home_def home_with_def
        transpilers_path_def labs_path_def demo_loader_def)
  have c: "engines_of (demo_loader []) discovery_home [''broken'', ''notes.txt'', ''empty'', ''demo'']
      = [\<lparr>cfg_path = transpilers_path @ [''demo'', ''lib'', ''config.yml''], cfg_name = ''Demo'',
           cfg_dialects = [''snowflake''], cfg_options = []\<rparr>]"
    by (simp add: engines_of_def entry_status_of_def discovery_home_def home_with_def
        transpilers_path_def labs_path_def demo_loader_def)
  have d: "unparsable_logged (demo_loader []) discovery_home [''broken'', ''notes.txt'', ''empty'', ''demo'']
      = [''Could not load config: ~/.databricks/labs/remorph-transpilers/broken'']"
    by (simp add: unparsable_logged_def path_str_def entry_status_of_def discovery_home_def
        home_with_def transpilers_path_def labs_path_def demo_loader_def)
  from b have b': "list_all (load_fails_with_ValueError (demo_loader []) discovery_home)
      [''broken'', ''notes.txt'', ''empty'', ''demo'']"
    by (simp only: list_all_iff)
  have s: "\<not> load_fails_with_ValueError strict_loader discovery_home ''broken''"
    by (simp add: load_fails_with_ValueError_def discovery_home_def home_with_def
        transpilers_path_def labs_path_def strict_loader_def)
  then have s': "\<exists>file \<in> set [''broken'', ''notes.txt'', ''empty'', ''demo''].
      \<not> load_fails_with_ValueError strict_loader discovery_home file"
    by simp
  from discovery_enumerates_engines [OF a, of "demo_loader []", THEN conjunct1, THEN mp, OF b]
  have 1: "iter_all_transpiler_configs (demo_loader []) discovery_home
       = (Inr [\<lparr>cfg_path = transpilers_path @ [''demo'', ''lib'', ''config.yml''], cfg_name = ''Demo'',
                cfg_dialects = [''snowflake''], cfg_options = []\<rparr>],
          [''Could not load config: ~/.databricks/labs/remorph-transpilers/broken''])
   \<and> all_transpiler_names (demo_loader []) discovery_home
       = (Inr {''Demo''}, [''Could not load config: ~/.databricks/labs/remorph-transpilers/broken''])"
    unfolding c d by simp
  from discovery_enumerates_engines [OF a, of strict_loader, THEN conjunct2, THEN mp, OF s']
  have 2: "\<exists>e. \<not> is_ValueError e
         \<and> fst (iter_all_transpiler_configs strict_loader discovery_home) = Inl e
         \<and> fst (all_transpiler_names strict_loader discovery_home) = Inl e" .
  from a b' 1 s 2 show ?thesis by blast
qed

text \<open>
  A \<open>config.yml\<close> whose load fails with an exception that is not a \<open>ValueError\<close>
  aborts the scan: the entry \<open>broken\<close> is unparsable and its sibling \<open>demo\<close> is an
  engine, yet discovery raises, reports neither descriptor nor name, and logs nothing.
\<close>

theorem discovery_aborts_on_other_error:
  "entry_status_of strict_loader discovery_home ''demo''
     = Engine \<lparr>cfg_path = transpilers_path @ [''demo'', ''lib'', ''config.yml''], cfg_name = ''Demo'',
               cfg_dialects = [''snowflake''], cfg_options = []\<rparr>
   \<and> entry_status_of strict_loader discovery_home ''broken'' = Unparsable
   \<and> iter_all_transpiler_configs strict_loader discovery_home = (Inl (OtherError ''YAMLError''), [])
   \<and> all_transpiler_names strict_loader discovery_home = (Inl (OtherError ''YAMLError''), [])"
  by (simp add: all_transpiler_names_def all_transpiler_configs_def iter_all_transpiler_configs_def
      listdir_def path_exists_def transpiler_config_def is_dir_def entry_status_of_def
      discovery_home_def home_with_def transpilers_path_def labs_path_def strict_loader_def)

text \<open>
  C9. For a known transpiler name, \<open>transpiler_config_options\<close> returns the options
  listed for the dialect when the descriptor has an entry for it, otherwise those under
  \<open>"all"\<close> when that entry exists, otherwise the empty list.
\<close>

theorem transpiler_config_options_fallback:
  assumes "all_transpiler_configs load fs = (Inr all_configs, logged)"
    and "map_of all_configs transpiler_name = Some config"
  shows "(map_of (cfg_options config) source_dialect = Some opts
            \<longrightarrow> fst (transpiler_config_options load fs transpiler_name source_dialect) = Inr opts)
       \<and> (map_of (cfg_options config) source_dialect = None \<and> map_of (cfg_options config) ''all'' = Some opts
            \<longrightarrow> fst (transpiler_config_options load fs transpiler_name source_dialect) = Inr opts)
       \<and> (map_of (cfg_options config) source_dialect = None \<and> map_of (cfg_options config) ''all'' = None
            \<longrightarrow> fst (transpiler_config_options load fs transpiler_name source_dialect) = Inr [])"
  using assms by (simp add: transpiler_config_options_def)

theorem transpiler_config_options_fallback_witness:
  "fst (transpiler_config_options
         (demo_loader [(''snowflake'', [demo_option]), (''all'', [other_option])])
         discovery_home ''Demo'' ''snowflake'') = Inr [demo_option]
   \<and> fst (transpiler_config_options
         (demo_loader [(''snowflake'', [demo_option]), (''all'', [other_option])])
         discovery_home ''Demo'' ''tsql'') = Inr [other_option]
   \<and> fst (transpiler_config_options (demo_loader [(''snowflake'', [demo_option])])
         discovery_home ''Demo'' ''tsql'') = Inr []"
proof -
  let ?both = "[(''snowflake'', [demo_option]), (''all'', [other_option])]"
  let ?one = "[(''snowflake'', [demo_option])]"
  let ?cfg = "\<lambda>opts. \<lparr>cfg_path = transpilers_path @ [''demo'', ''lib'', ''config.yml''],
      cfg_name = ''Demo'', cfg_dialects = [''snowflake''], cfg_options = opts\<rparr>"
  have k: "map_of [(''Demo'', ?cfg opts)] ''Demo'' = Some (?cfg opts)" for opts by simp
  from transpiler_config_options_fallback
    [OF discovery_home_configs k, of ?both "''snowflake''" "[demo_option]"]
  have 1: "fst (transpiler_config_options (demo_loader ?both) discovery_home ''Demo'' ''snowflake'')
      = Inr [demo_option]" by simp
  from transpiler_config_options_fallback
    [OF discovery_home_configs k, of ?both "''tsql''" "[other_option]"]
  have 2: "fst (transpiler_config_options (demo_loader ?both) discovery_home ''Demo'' ''tsql'')
      = Inr [other_option]" by simp
  from transpiler_config_options_fallback
    [OF discovery_home_configs k, of ?one "''tsql''"]
  have 3: "fst (transpiler_config_options (demo_loader ?one) discovery_home ''Demo'' ''tsql'')
      = Inr []" by simp
  from 1 2 3 show ?thesis by blast
qed

section \<open>Registry clients\<close>

text \<open>
  C4, as the code has it. When the request to PyPI is answered with an HTTP error (a
  not-found answer is one), the version lookup returns nothing and does not raise.
\<close>

theorem get_pypi_artifact_version_http_error:
  assumes "urlopen env (''https://pypi.org/pypi/'' @ product_name @ ''/json'') = Inl e"
    and "is_HTTPError e"
  shows "fst (get_pypi_artifact_version env product_name w) = Inr None"
  using assms
  by (simp add: get_pypi_artifact_version_def try_except_def and_then_def record_call_def
      raise_def return_def Let_def)

theorem get_pypi_artifact_version_http_error_witness:
  "urlopen not_found_env (''https://pypi.org/pypi/'' @ ''demo'' @ ''/json'') = Inl HTTPError
   \<and> is_HTTPError HTTPError
   \<and> fst (get_pypi_artifact_version not_found_env ''demo'' prepared_world) = Inr None"
proof -
  have a: "urlopen not_found_env (''https://pypi.org/pypi/'' @ ''demo'' @ ''/json'') = Inl HTTPError"
    by (simp add: not_found_env_def offline_env_def)
  have b: "is_HTTPError HTTPError" by simp
  from get_pypi_artifact_version_http_error [OF a b] a b show ?thesis by simp
qed

text \<open>A transport error that is not an HTTP error, such as an unreachable host, is a
  \<open>URLError\<close>: the \<open>except HTTPError\<close> clause lets it through to the caller.\<close>

theorem get_pypi_artifact_version_url_error_raises:
  "fst (get_pypi_artifact_version offline_env ''demo'' prepared_world) = Inl URLError"
  by (simp add: get_pypi_artifact_version_def try_except_def and_then_def record_call_def
      raise_def return_def Let_def offline_env_def)

text \<open>
  C7, as the code has it. When the destination exists, \<open>download_artifact_from_maven\<close>
  returns \<open>True\<close> and leaves the world as it is: no request, no write. Otherwise it
  requests the artifact's URL once. When the request raises a \<open>URLError\<close> (an
  \<open>HTTPError\<close> is one), it returns \<open>False\<close> and does not raise; an exception of
  another class raised by the request is raised to the caller. When the file is fetched
  and the directory of the destination exists, the file is put at the destination and
  \<open>True\<close> is returned; when that directory does not exist the move raises, and what is
  raised is not a \<open>URLError\<close>.
\<close>

theorem download_artifact_from_maven_cases:
  "(path_exists (files w) target
      \<longrightarrow> download_artifact_from_maven env group_id artifact_id version target classifier extension w
            = (Inr True, w))
   \<and> (\<not> path_exists (files w) target
       \<and> urlretrieve env (artifact_url group_id artifact_id version classifier extension) = Inl e
       \<and> is_URLError e
      \<longrightarrow> download_artifact_from_maven env group_id artifact_id version target classifier extension w
            = (Inr False,
               w\<lparr>calls := calls w @ [UrlRetrieve (artifact_url group_id artifact_id version classifier extension)]\<rparr>))
   \<and> (\<not> path_exists (files w) target
       \<and> urlretrieve env (artifact_url group_id artifact_id version classifier extension) = Inr c
       \<and> is_dir (files w) (butlast target)
      \<longrightarrow> download_artifact_from_maven env group_id artifact_id version target classifier extension w
            = (Inr True,
               \<lparr>files = put target (Some (File c)) (files w),
                calls = calls w @ [UrlRetrieve (artifact_url group_id artifact_id version classifier extension)]\<rparr>)
          \<and> node_at (put target (Some (File c)) (files w)) target = Some (File c))
   \<and> (\<not> path_exists (files w) target
       \<and> urlretrieve env (artifact_url group_id artifact_id version classifier extension) = Inl e
       \<and> \<not> is_URLError e
      \<longrightarrow> download_artifact_from_maven env group_id artifact_id version target classifier extension w
            = (Inl e,
               w\<lparr>calls := calls w @ [UrlRetrieve (artifact_url group_id artifact_id version classifier extension)]\<rparr>))
   \<and> (\<not> path_exists (files w) target
       \<and> urlretrieve env (artifact_url group_id artifact_id version classifier extension) = Inr c
       \<and> \<not> is_dir (files w) (butlast target)
      \<longrightarrow> (\<exists>raised. \<not> is_URLError raised
            \<and> download_artifact_from_maven env group_id artifact_id version target classifier extension w
                = (Inl raised,
                   w\<lparr>calls := calls w @ [UrlRetrieve (artifact_url group_id artifact_id version classifier extension)]\<rparr>)))"
proof -
  have "node_at (put target (Some (File c)) (files w)) target = Some (File c)"
    if "\<not> path_exists (files w) target" "is_dir (files w) (butlast target)"
  proof (rule node_at_put_same)
    from that show "target \<noteq> []" by (auto simp: path_exists_def)
  qed (use that in simp)
  then show ?thesis
    by (simp add: download_artifact_from_maven_def and_then_def record_call_def raise_def
        return_def fs_op_def move_download_def Let_def)
qed

theorem download_artifact_from_maven_cases_witness:
  "path_exists (files (tmp_world [(''pom.xml'', File (Bytes ''old''))])) pom_path
   \<and> download_artifact_from_maven offline_env ''com.databricks'' ''databricks-connect'' ''16.0.0''
        pom_path None ''pom'' (tmp_world [(''pom.xml'', File (Bytes ''old''))])
       = (Inr True, tmp_world [(''pom.xml'', File (Bytes ''old''))])
   \<and> \<not> path_exists (files (tmp_world [])) pom_path
   \<and> is_dir (files (tmp_world [])) (butlast pom_path)
   \<and> fst (download_artifact_from_maven offline_env ''com.databricks'' ''databricks-connect''
        ''16.0.0'' pom_path None ''pom'' (tmp_world [])) = Inr False
   \<and> fst (download_artifact_from_maven pom_env ''com.databricks'' ''databricks-connect''
        ''16.0.0'' pom_path None ''pom'' (tmp_world [])) = Inr True
   \<and> node_at (files (snd (download_artifact_from_maven pom_env ''com.databricks''
        ''databricks-connect'' ''16.0.0'' pom_path None ''pom'' (tmp_world [])))) pom_path
       = Some (File (Bytes ''<project/>''))
   \<and> fst (download_artifact_from_maven reset_env ''com.databricks'' ''databricks-connect''
        ''16.0.0'' pom_path None ''pom'' (tmp_world [])) = Inl OSError
   \<and> \<not> path_exists (files (tmp_world [])) (pom_path @ [''pom.xml''])
   \<and> \<not> is_dir (files (tmp_world [])) (butlast (pom_path @ [''pom.xml'']))
   \<and> (\<exists>raised. \<not> is_URLError raised
        \<and> fst (download_artifact_from_maven pom_env ''com.databricks'' ''databricks-connect''
             ''16.0.0'' (pom_path @ [''pom.xml'']) None ''pom'' (tmp_world [])) = Inl raised)"
proof -
  let ?old = "tmp_world [(''pom.xml'', File (Bytes ''old''))]"
  have a: "path_exists (files ?old) pom_path"
    by (simp add: tmp_world_def pom_path_def path_exists_def)
  have b: "\<not> path_exists (files (tmp_world [])) pom_path"
    by (simp add: tmp_world_def pom_path_def path_exists_def)
  have c: "is_dir (files (tmp_world [])) (butlast pom_path)"
    by (simp add: tmp_world_def pom_path_def is_dir_def)
  have d: "urlretrieve offline_env u = Inl URLError" for u
    by (simp add: offline_env_def)
  have e: "urlretrieve pom_env u = Inr (Bytes ''<project/>'')" for u
    by (simp add: pom_env_def offline_env_def)
  have f: "urlretrieve reset_env u = Inl OSError" for u
    by (simp add: reset_env_def offline_env_def)
  have g: "\<not> path_exists (files (tmp_world [])) (pom_path @ [''pom.xml''])"
    by (simp add: tmp_world_def pom_path_def path_exists_def)
  have h: "\<not> is_dir (files (tmp_world [])) (butlast (pom_path @ [''pom.xml'']))"
    by (simp add: tmp_world_def pom_path_def is_dir_def)
  from a download_artifact_from_maven_cases [of ?old pom_path offline_env]
  have 1: "download_artifact_from_maven offline_env ''com.databricks'' ''databricks-connect''
      ''16.0.0'' pom_path None ''pom'' ?old = (Inr True, ?old)"
    by simp
  from b d download_artifact_from_maven_cases
    [of "tmp_world []" pom_path offline_env "''com.databricks''" "''databricks-connect''"
      "''16.0.0''" None "''pom''" URLError]
  have 2: "fst (download_artifact_from_maven offline_env ''com.databricks'' ''databricks-connect''
      ''16.0.0'' pom_path None ''pom'' (tmp_world [])) = Inr False"
    by simp
  from b c e download_artifact_from_maven_cases
    [of "tmp_world []" pom_path pom_env "''com.databricks''" "''databricks-connect''"
      "''16.0.0''" None "''pom''" _ "Bytes ''<project/>''"]
  have 3: "fst (download_artifact_from_maven pom_env ''com.databricks'' ''databricks-connect''
        ''16.0.0'' pom_path None ''pom'' (tmp_world [])) = Inr True
     \<and> node_at (files (snd (download_artifact_from_maven pom_env ''com.databricks''
        ''databricks-connect'' ''16.0.0'' pom_path None ''pom'' (tmp_world [])))) pom_path
       = Some (File (Bytes ''<project/>''))"
    by simp
  from b f download_artifact_from_maven_cases
    [of "tmp_world []" pom_path reset_env "''com.databricks''" "''databricks-connect''"
      "''16.0.0''" None "''pom''" OSError]
  have 4: "fst (download_artifact_from_maven reset_env ''com.databricks'' ''databricks-connect''
      ''16.0.0'' pom_path None ''pom'' (tmp_world [])) = Inl OSError"
    by simp
  from g h e download_artifact_from_maven_cases
    [of "tmp_world []" "pom_path @ [''pom.xml'']" pom_env "''com.databricks''"
      "''databricks-connect''" "''16.0.0''" None "''pom''" _ "Bytes ''<project/>''"]
  have 5: "\<exists>raised. \<not> is_URLError raised
        \<and> fst (download_artifact_from_maven pom_env ''com.databricks'' ''databricks-connect''
             ''16.0.0'' (pom_path @ [''pom.xml'']) None ''pom'' (tmp_world [])) = Inl raised"
    by auto
  from a b c 1 2 3 4 g h 5 show ?thesis by blast
qed

text \<open>
  Two downloads to a destination that does not exist which raise instead of returning a
  boolean. The connection is reset while the artifact is read: \<open>urlretrieve\<close> raises an
  \<open>OSError\<close> that is not a \<open>URLError\<close>, and \<open>except URLError\<close> lets it through. The
  artifact is fetched, but the directory \<open>tmp/downloads\<close> of the destination does not
  exist: \<open>shutil.move\<close> raises \<open>FileNotFoundError\<close>, outside the \<open>try\<close> block.
\<close>

theorem download_artifact_from_maven_raises:
  "\<not> path_exists (files (tmp_world [])) pom_path
   \<and> fst (download_artifact_from_maven reset_env ''com.databricks'' ''databricks-connect''
        ''16.0.0'' pom_path None ''pom'' (tmp_world [])) = Inl OSError
   \<and> \<not> path_exists (files (tmp_world [])) [''tmp'', ''downloads'', ''pom.xml'']
   \<and> fst (download_artifact_from_maven pom_env ''com.databricks'' ''databricks-connect''
        ''16.0.0'' [''tmp'', ''downloads'', ''pom.xml''] None ''pom'' (tmp_world []))
       = Inl FileNotFoundError"
  by (simp add: download_artifact_from_maven_def and_then_def record_call_def raise_def
      return_def fs_op_def move_download_def Let_def tmp_world_def pom_path_def path_exists_def
      is_dir_def reset_env_def pom_env_def offline_env_def)

section \<open>Operations that write below a directory\<close>

lemma confined_refl: "confined P a a"
  by (simp add: confined_def)

lemma confined_trans: "confined P a b \<Longrightarrow> confined P b c \<Longrightarrow> confined P a c"
  by (simp add: confined_def)

lemma confined_put: 
  assumes "r \<noteq> []" shows "confined P fs (put (P @ r) v fs)"
proof -
  have 1: "is_dir (put (P @ r) v fs) q" if "prefix q P" "is_dir fs q" for q
  proof (rule is_dir_put_below)
    from that(1) assms show "strict_prefix q (P @ r)"
      by (auto simp: strict_prefix_def prefix_def)
  qed (rule that(2))
  have 2: "node_at (put (P @ r) v fs) q = node_at fs q" if "\<not> prefix P q" "\<not> prefix q P" for q
  proof (rule node_at_put_other)
    from that(1) show "\<not> prefix (P @ r) q" by (auto simp: prefix_def)
    from that show "\<not> prefix q (P @ r)" by (auto simp: prefix_append)
  qed
  from 1 2 show ?thesis by (simp add: confined_def)
qed

lemma writes_below_return: "writes_below P (return x)"
  by (simp add: writes_below_def return_def confined_refl)

lemma writes_below_raise: "writes_below P (raise e)"
  by (simp add: writes_below_def raise_def confined_refl)

lemma writes_below_of_result: "writes_below P (of_result r)"
  by (simp add: writes_below_def of_result_def confined_refl)

lemma writes_below_fs_read: "writes_below P (fs_read f)"
  by (simp add: writes_below_def fs_read_def confined_refl)

lemma writes_below_record_call: "writes_below P (record_call c)"
  by (simp add: writes_below_def record_call_def confined_refl)

lemma writes_below_and_then:
  assumes "writes_below P m" and "\<And>x. writes_below P (f x)"
  shows "writes_below P (and_then m f)"
proof -
  have "confined P (files w) (files (snd (and_then m f w)))" for w
  proof (cases "m w")
    case (Pair r w1)
    with assms(1) have c1: "confined P (files w) (files w1)"
      by (auto simp: writes_below_def dest: spec [of _ w])
    show ?thesis
    proof (cases r)
      case (Inl e)
      with Pair c1 show ?thesis by (simp add: and_then_def)
    next
      case (Inr x)
      from assms(2) [of x] have "confined P (files w1) (files (snd (f x w1)))"
        by (simp add: writes_below_def)
      with c1 Pair Inr show ?thesis by (auto simp: and_then_def intro: confined_trans)
    qed
  qed
  then show ?thesis by (simp add: writes_below_def)
qed

lemma writes_below_try_except:
  assumes "writes_below P body" and "writes_below P handler"
  shows "writes_below P (try_except body caught handler)"
proof -
  have "confined P (files w) (files (snd (try_except body caught handler w)))" for w
  proof (cases "body w")
    case (Pair r w1)
    with assms(1) have c1: "confined P (files w) (files w1)"
      by (auto simp: writes_below_def dest: spec [of _ w])
    from assms(2) have "confined P (files w1) (files (snd (handler w1)))"
      by (simp add: writes_below_def)
    with c1 have "confined P (files w) (files (snd (handler w1)))" by (rule confined_trans)
    with c1 Pair show ?thesis by (cases r) (simp_all add: try_except_def)
  qed
  then show ?thesis by (simp add: writes_below_def)
qed

lemma writes_below_if:
  assumes "writes_below P m" and "writes_below P m'"
  shows "writes_below P (\<lambda>w. if c w then m w else m' w)"
  using assms by (simp add: writes_below_def)

lemma writes_below_when_fs:
  assumes "writes_below P m"
  shows "writes_below P (when_fs c m)"
  using assms by (simp add: writes_below_def when_fs_def confined_refl)

lemma writes_below_fs_op:
  assumes "\<And>fs fs'. f fs = Inr fs' \<Longrightarrow> confined P fs fs'"
  shows "writes_below P (fs_op f)"
proof -
  have "confined P (files w) (files (snd (fs_op f w)))" for w
    using assms [of "files w"] by (cases "f (files w)") (simp_all add: fs_op_def confined_refl)
  then show ?thesis by (simp add: writes_below_def)
qed

lemma writes_below_mkdir: "r \<noteq> [] \<Longrightarrow> writes_below P (fs_op (mkdir (P @ r)))"
  by (rule writes_below_fs_op) (auto simp: mkdir_def confined_put split: if_splits)

lemma writes_below_write_file: "r \<noteq> [] \<Longrightarrow> writes_below P (fs_op (write_file (P @ r) c))"
  by (rule writes_below_fs_op)
    (auto simp: write_file_def confined_put split: if_splits option.splits node.splits)

lemma writes_below_rmdir: "r \<noteq> [] \<Longrightarrow> writes_below P (fs_op (rmdir (P @ r)))"
  by (rule writes_below_fs_op)
    (auto simp: rmdir_def confined_put split: if_splits option.splits node.splits)

lemma writes_below_move_download: "r \<noteq> [] \<Longrightarrow> writes_below P (fs_op (move_download c (P @ r)))"
  by (rule writes_below_fs_op) (auto simp: move_download_def confined_put split: if_splits)

lemma writes_below_move_file:
  assumes "r \<noteq> []" "s \<noteq> []"
  shows "writes_below P (fs_op (move_file (P @ r) (P @ s)))"
proof (rule writes_below_fs_op)
  fix fs fs' assume a: "move_file (P @ r) (P @ s) fs = Inr fs'"
  have 1: "confined P fs (put (P @ r) None fs)" using assms(1) by (rule confined_put)
  have 2: "confined P (put (P @ r) None fs) (put (P @ t) v (put (P @ r) None fs))" if "t \<noteq> []" for t v
    using that by (rule confined_put)
  from assms(2) have 3: "s @ [x] \<noteq> []" for x by simp
  from a show "confined P fs fs'"
    using confined_trans [OF 1 2 [OF assms(2)]] confined_trans [OF 1 2 [OF 3]]
    by (auto simp: move_file_def Let_def split: option.splits node.splits if_splits)
qed

lemma writes_below_run_in: "r \<noteq> [] \<Longrightarrow> writes_below P (run_in env args (P @ r))"
  by (auto simp: writes_below_def run_in_def confined_refl confined_put
      split: option.splits node.splits prod.splits)

lemma writes_below_store_product_state: "writes_below P (store_product_state now P v)"
  unfolding store_product_state_def Let_def append_assoc append_Cons append_Nil
  by (intro writes_below_and_then writes_below_mkdir writes_below_write_file) simp_all

lemma writes_below_create_venv: "writes_below P (create_venv env (P @ [''lib'']))"
  unfolding create_venv_def Let_def append_assoc append_Cons append_Nil
  by (intro writes_below_and_then writes_below_run_in)
    (simp_all add: writes_below_raise writes_below_fs_read)

lemma writes_below_install_from_pip:
  "writes_below P (install_from_pip env (P @ [''lib'']) site_packages pypi_name)"
  unfolding install_from_pip_def Let_def append_assoc append_Cons append_Nil
  by (intro writes_below_and_then writes_below_run_in writes_below_fs_read)
    (simp_all add: writes_below_raise writes_below_return)

lemma writes_below_copy_lsp_resources:
  "writes_below P (copy_lsp_resources env (P @ [''lib'']) site_packages)"
  by (auto simp: writes_below_def copy_lsp_resources_def Let_def confined_refl confined_put
      split: option.splits node.splits prod.splits)

lemma writes_below_run_custom_installer:
  "writes_below P (run_custom_installer env (P @ [''lib'']) installer)"
  unfolding run_custom_installer_def
  by (intro writes_below_and_then writes_below_run_in)
    (simp_all add: writes_below_raise writes_below_return)

lemma writes_below_post_install:
  "writes_below P (post_install env P (P @ [''lib'']) version)"
  unfolding post_install_def Let_def
  by (intro writes_below_and_then writes_below_fs_read writes_below_if
      writes_below_run_custom_installer writes_below_store_product_state writes_below_return)
    (simp add: writes_below_def confined_refl)

lemma writes_below_Pypi_unsafe:
  "writes_below P (PypiInstaller_unsafe_install_latest_version env P (P @ [''lib'']) pypi_name version)"
  unfolding PypiInstaller_unsafe_install_latest_version_def
  by (intro writes_below_and_then writes_below_create_venv writes_below_install_from_pip
      writes_below_copy_lsp_resources writes_below_post_install)

lemma writes_below_download:
  "r \<noteq> [] \<Longrightarrow> writes_below P (download_artifact_from_maven env g a v (P @ r) cl ext)"
proof -
  assume r: "r \<noteq> []"
  let ?m = "and_then (record_call (UrlRetrieve (artifact_url g a v cl ext)))
              (\<lambda>_. case urlretrieve env (artifact_url g a v cl ext) of
                     Inl e \<Rightarrow> if is_URLError e then return False else raise e
                   | Inr c \<Rightarrow> and_then (fs_op (move_download c (P @ r))) (\<lambda>_. return True))"
  have "writes_below P ?m"
    by (intro writes_below_and_then writes_below_record_call)
      (auto split: sum.splits intro!: writes_below_and_then writes_below_move_download
        writes_below_return writes_below_raise r)
  then show ?thesis
    by (simp add: writes_below_def download_artifact_from_maven_def Let_def confined_refl)
qed

lemma writes_below_copy_lsp_config:
  "writes_below P (copy_lsp_config (P @ [''lib'']) (P @ [''lib'', jar]))"
  unfolding copy_lsp_config_def append_assoc append_Cons append_Nil
  by (intro writes_below_and_then writes_below_fs_read)
    (auto split: option.splits intro!: writes_below_and_then writes_below_when_fs
      writes_below_mkdir writes_below_write_file writes_below_move_file writes_below_rmdir
      writes_below_raise)

lemma writes_below_Maven_unsafe:
  "writes_below P (MavenInstaller_unsafe_install_version env (P @ [''lib'']) g a v)"
  unfolding MavenInstaller_unsafe_install_version_def Let_def append_assoc append_Cons append_Nil
  by (intro writes_below_and_then writes_below_download)
    (auto intro!: writes_below_and_then writes_below_return writes_below_copy_lsp_config)

section \<open>Renaming, creating and removing directories\<close>

lemma and_then_Inr: "m w = (Inr x, w1) \<Longrightarrow> and_then m f w = f x w1"
  by (simp add: and_then_def)

lemma and_then_Inl: "m w = (Inl e, w1) \<Longrightarrow> and_then m f w = (Inl e, w1)"
  by (simp add: and_then_def)

lemma node_at_child_is_dir: "node_at fs (p @ [a]) = Some n \<Longrightarrow> is_dir fs p"
  by (auto simp: node_at_append is_dir_def split: option.splits node.splits)

lemma sibling_incomparable:
  "c \<noteq> a \<Longrightarrow> \<not> prefix (p @ [a]) (p @ c # r) \<and> \<not> prefix (p @ c # r) (p @ [a])"
  by simp

lemma rename_sibling:
  assumes "node_at fs (p @ [a]) = Some n" and "node_at fs (p @ [b]) = None" and "a \<noteq> b"
  shows "\<exists>fs'. rename win (p @ [a]) (p @ [b]) fs = Inr fs'
           \<and> node_at fs' (p @ [b]) = Some n
           \<and> node_at fs' (p @ [a]) = None
           \<and> (\<forall>c r. c \<noteq> a \<and> c \<noteq> b \<longrightarrow> node_at fs' (p @ c # r) = node_at fs (p @ c # r))
           \<and> (\<forall>q. prefix q p \<and> is_dir fs q \<longrightarrow> is_dir fs' q)"
proof -
  let ?fs1 = "put (p @ [a]) None fs"
  let ?fs2 = "put (p @ [b]) (Some n) ?fs1"
  from assms(1) have d: "is_dir fs p" by (rule node_at_child_is_dir)
  have sp: "strict_prefix q (p @ [x])" if "prefix q p" for q x
    using that by (auto simp: strict_prefix_def prefix_def)
  have d1: "is_dir ?fs1 q" if "prefix q p" "is_dir fs q" for q
    using that(2) sp [OF that(1)] by (rule is_dir_put_below)
  have d2: "is_dir ?fs2 q" if "prefix q p" "is_dir fs q" for q
    using d1 [OF that] sp [OF that(1)] by (rule is_dir_put_below)
  have r: "rename win (p @ [a]) (p @ [b]) fs = Inr ?fs2"
    using assms d by (simp add: rename_def)
  have b: "node_at ?fs2 (p @ [b]) = Some n"
    by (rule node_at_put_same) (use d1 [of p] d in simp_all)
  have a: "node_at ?fs2 (p @ [a]) = None"
  proof -
    have "node_at ?fs2 (p @ [a]) = node_at ?fs1 (p @ [a])"
      by (rule node_at_put_other) (use assms(3) in simp_all)
    also have "\<dots> = None"
      by (rule node_at_put_same) (use d in simp_all)
    finally show ?thesis .
  qed
  have o: "node_at ?fs2 (p @ c # r) = node_at fs (p @ c # r)" if "c \<noteq> a" "c \<noteq> b" for c r
  proof -
    have "node_at ?fs2 (p @ c # r) = node_at ?fs1 (p @ c # r)"
      by (rule node_at_put_other) (use that in simp_all)
    also have "\<dots> = node_at fs (p @ c # r)"
      by (rule node_at_put_other) (use that in simp_all)
    finally show ?thesis .
  qed
  from r a b o d2 show ?thesis by blast
qed

lemma mkdir_parents_error:
  "mkdir_parents p fs = Inl e \<Longrightarrow> e = FileExistsError \<or> e = NotADirectoryError"
  by (induction p fs rule: mkdir_parents.induct) (auto split: option.splits sum.splits)

lemma node_at_fresh_dirs:
  "node_at (fresh_dirs p) q = (if prefix q p then Some (fresh_dirs (drop (length q) p)) else None)"
proof (induction p arbitrary: q)
  case Nil
  then show ?case by (cases q) simp_all
next
  case (Cons x p)
  then show ?case by (cases q) simp_all
qed

lemma mkdir_parents_result:
  assumes "mkdir_parents p fs = Inr fs'"
  shows "node_at fs' p = Some (Dir [])
       \<and> (\<forall>q. \<not> prefix q p \<and> \<not> prefix p q \<longrightarrow> node_at fs' q = node_at fs q)
       \<and> (\<forall>q. prefix q p \<longrightarrow> is_dir fs' q)"
  using assms
proof (induction p fs arbitrary: fs' rule: mkdir_parents.induct)
  case (1 n)
  then show ?case by simp
next
  case (2 x p c)
  then show ?case by simp
next
  case (3 x p kids)
  show ?case
  proof (cases "map_of kids x")
    case None
    with 3(2) have fs': "fs' = Dir (AList.update x (fresh_dirs p) kids)" by simp
    have a: "node_at fs' (x # p) = Some (Dir [])"
      by (simp add: fs' update_conv' node_at_fresh_dirs)
    have b: "node_at fs' q = node_at (Dir kids) q" if "\<not> prefix q (x # p)" "\<not> prefix (x # p) q" for q
    proof (cases q)
      case Nil
      with that show ?thesis by simp
    next
      case (Cons y q')
      with that None show ?thesis
        by (cases "y = x") (simp_all add: fs' update_conv' node_at_fresh_dirs)
    qed
    have c: "is_dir fs' q" if "prefix q (x # p)" for q
    proof (cases q)
      case Nil
      then show ?thesis by (simp add: fs' is_dir_def)
    next
      case (Cons y q')
      with that have "y = x" "prefix q' p" by simp_all
      then have "node_at fs' q = Some (fresh_dirs (drop (length q') p))"
        by (simp add: Cons fs' update_conv' node_at_fresh_dirs)
      then show ?thesis by (cases "drop (length q') p") (simp_all add: is_dir_def)
    qed
    from a b c show ?thesis by blast
  next
    case (Some k)
    with 3(2) obtain k' where k': "mkdir_parents p k = Inr k'"
      and fs': "fs' = Dir (AList.update x k' kids)"
      by (auto split: sum.splits)
    from 3(1) [OF Some k'] have ih1: "node_at k' p = Some (Dir [])"
      and ih2: "\<And>q. \<not> prefix q p \<Longrightarrow> \<not> prefix p q \<Longrightarrow> node_at k' q = node_at k q"
      and ih3: "\<And>q. prefix q p \<Longrightarrow> is_dir k' q"
      by blast+
    have a: "node_at fs' (x # p) = Some (Dir [])"
      by (simp add: fs' update_conv' ih1)
    have b: "node_at fs' q = node_at (Dir kids) q" if "\<not> prefix q (x # p)" "\<not> prefix (x # p) q" for q
    proof (cases q)
      case Nil
      with that show ?thesis by simp
    next
      case (Cons y q')
      with that Some ih2 [of q'] show ?thesis
        by (cases "y = x") (simp_all add: fs' update_conv')
    qed
    have c: "is_dir fs' q" if "prefix q (x # p)" for q
    proof (cases q)
      case Nil
      then show ?thesis by (simp add: fs' is_dir_def)
    next
      case (Cons y q')
      with that have "y = x" "prefix q' p" by simp_all
      with ih3 [of q'] show ?thesis
        by (simp add: Cons fs' update_conv' is_dir_def)
    qed
    from a b c show ?thesis by blast
  qed
qed

lemma mkdir_in_empty:
  assumes "node_at fs p = Some (Dir [])"
  shows "mkdir (p @ [x]) fs = Inr (put (p @ [x]) (Some (Dir [])) fs)"
  using assms by (simp add: mkdir_def path_exists_def is_dir_def node_at_append)

lemma put_Cons:
  "q \<noteq> [] \<Longrightarrow> put (y # q) v (Dir kids) =
     (case map_of kids y of None \<Rightarrow> Dir kids | Some k \<Rightarrow> Dir (AList.update y (put q v k) kids))"
  by (cases q) (simp_all cong: option.case_cong)

lemma node_at_put_parent:
  "node_at fs p = Some (Dir kids) \<Longrightarrow>
   node_at (put (p @ [x]) (Some m) fs) p = Some (Dir (AList.update x m kids))"
proof (induction p arbitrary: fs)
  case Nil
  then show ?case by simp
next
  case (Cons y p)
  from Cons.prems obtain ks k where fs: "fs = Dir ks" and k: "map_of ks y = Some k"
    and n: "node_at k p = Some (Dir kids)"
    by (cases fs) (auto split: option.splits)
  from Cons.IH [OF n] show ?case
    by (simp add: fs k put_Cons update_conv')
qed

section \<open>The steps of an install attempt\<close>

text \<open>The backup step: when the destination is free, it succeeds, and the backup path
  then holds what the product path held.\<close>

lemma backup_step:
  assumes "node_at (files w) (p @ [b]) = None" and "a \<noteq> b"
  shows "\<exists>fs1. when_fs (\<lambda>fs. path_exists fs (p @ [a])) (fs_op (rename win (p @ [a]) (p @ [b]))) w
              = (Inr (), w\<lparr>files := fs1\<rparr>)
           \<and> node_at fs1 (p @ [b]) = node_at (files w) (p @ [a])
           \<and> node_at fs1 (p @ [a]) = None
           \<and> (\<forall>c r. c \<noteq> a \<and> c \<noteq> b \<longrightarrow> node_at fs1 (p @ c # r) = node_at (files w) (p @ c # r))
           \<and> (is_dir (files w) p \<longrightarrow> is_dir fs1 p)"
proof (cases "node_at (files w) (p @ [a])")
  case None
  with assms show ?thesis
    by (intro exI [of _ "files w"]) (simp add: when_fs_def path_exists_def)
next
  case (Some n)
  from rename_sibling [OF Some assms] obtain fs1 where
    r: "rename win (p @ [a]) (p @ [b]) (files w) = Inr fs1"
    and f: "node_at fs1 (p @ [b]) = Some n" "node_at fs1 (p @ [a]) = None"
      "\<forall>c r. c \<noteq> a \<and> c \<noteq> b \<longrightarrow> node_at fs1 (p @ c # r) = node_at (files w) (p @ c # r)"
      "\<forall>q. prefix q p \<and> is_dir (files w) q \<longrightarrow> is_dir fs1 q"
    by blast
  from f(4) have "is_dir (files w) p \<longrightarrow> is_dir fs1 p" by simp
  moreover from Some r have "when_fs (\<lambda>fs. path_exists fs (p @ [a])) (fs_op (rename win (p @ [a]) (p @ [b]))) w
      = (Inr (), w\<lparr>files := fs1\<rparr>)"
    by (simp add: when_fs_def path_exists_def fs_op_def)
  ultimately show ?thesis using f(1,2,3) Some by auto
qed

text \<open>Creating the fresh product directory and its \<open>lib\<close>: an error here is an
  \<open>OSError\<close> of \<open>mkdir\<close>.\<close>

lemma mkdir_parents_succeeds:
  "is_dir fs p \<Longrightarrow> node_at fs (p @ [a]) = None \<Longrightarrow> \<exists>fs'. mkdir_parents (p @ [a]) fs = Inr fs'"
proof (induction p arbitrary: fs)
  case Nil
  then show ?case
    by (cases fs) (auto simp: is_dir_def split: option.splits)
next
  case (Cons y p)
  from Cons.prems(1) obtain kids k where fs: "fs = Dir kids" and k: "map_of kids y = Some k"
    and d: "is_dir k p"
    by (cases fs) (auto simp: is_dir_def split: option.splits)
  from Cons.prems(2) fs k have "node_at k (p @ [a]) = None" by simp
  from Cons.IH [OF d this] obtain k' where "mkdir_parents (p @ [a]) k = Inr k'" ..
  with fs k show ?case by simp
qed

lemma prepare_step:
  assumes "node_at fs (p @ [a]) = None"
  shows "(\<exists>e. mkdir_parents (p @ [a]) fs = Inl e \<and> (e = FileExistsError \<or> e = NotADirectoryError)
            \<and> \<not> is_dir fs p)
       \<or> (\<exists>fs2 fs3. mkdir_parents (p @ [a]) fs = Inr fs2 \<and> mkdir (p @ [a, ''lib'']) fs2 = Inr fs3
               \<and> node_at fs3 (p @ [a]) = Some (Dir [(''lib'', Dir [])])
               \<and> is_dir fs3 (p @ [a]) \<and> is_dir fs3 p \<and> is_dir fs3 (p @ [a, ''lib''])
               \<and> \<not> path_exists fs3 (p @ [a, ''state''])
               \<and> (\<forall>c r. c \<noteq> a \<longrightarrow> node_at fs3 (p @ c # r) = node_at fs (p @ c # r)))"
proof (cases "mkdir_parents (p @ [a]) fs")
  case (Inl e)
  with mkdir_parents_succeeds [OF _ assms] have "\<not> is_dir fs p" by auto
  with Inl mkdir_parents_error [OF Inl] show ?thesis by simp
next
  case (Inr fs2)
  from mkdir_parents_result [OF Inr] have
    a: "node_at fs2 (p @ [a]) = Some (Dir [])"
    and o: "\<And>q. \<not> prefix q (p @ [a]) \<Longrightarrow> \<not> prefix (p @ [a]) q \<Longrightarrow> node_at fs2 q = node_at fs q"
    and d: "\<And>q. prefix q (p @ [a]) \<Longrightarrow> is_dir fs2 q"
    by blast+
  let ?fs3 = "put (p @ [a, ''lib'']) (Some (Dir [])) fs2"
  from mkdir_in_empty [OF a, of "''lib''"] have m: "mkdir (p @ [a, ''lib'']) fs2 = Inr ?fs3" by simp
  have c: "confined (p @ [a]) fs2 ?fs3"
    using confined_put [of "[''lib'']" "p @ [a]" fs2] by simp
  have 1: "is_dir ?fs3 (p @ [a])" "is_dir ?fs3 p"
    using c d [of "p @ [a]"] d [of p] by (auto simp: confined_def)
  have l: "node_at ?fs3 (p @ [a, ''lib'']) = Some (Dir [])"
    by (rule node_at_put_same) (use d [of "p @ [a]"] in \<open>simp_all add: butlast_append\<close>)
  then have 2: "is_dir ?fs3 (p @ [a, ''lib''])" by (simp add: is_dir_def)
  have "node_at ?fs3 (p @ [a, ''state'']) = node_at fs2 (p @ [a, ''state''])"
    by (rule node_at_put_other) simp_all
  also have "\<dots> = None"
    using a node_at_append [of fs2 "p @ [a]" "[''state'']"] by simp
  finally have 3: "\<not> path_exists ?fs3 (p @ [a, ''state''])" by (simp add: path_exists_def)
  have 4: "node_at ?fs3 (p @ c # r) = node_at fs (p @ c # r)" if "c \<noteq> a" for c r
  proof -
    have "node_at ?fs3 (p @ c # r) = node_at fs2 (p @ c # r)"
      using c that by (simp add: confined_def)
    also have "\<dots> = node_at fs (p @ c # r)"
      by (rule o) (use that in simp_all)
    finally show ?thesis .
  qed
  have 5: "node_at ?fs3 (p @ [a]) = Some (Dir [(''lib'', Dir [])])"
    using node_at_put_parent [OF a, of "''lib''" "Dir []"] by simp
  from Inr m 1 2 3 4 5 show ?thesis by blast
qed

text \<open>The rollback: the fresh directory goes, and the backup, if there is one, comes
  back under the product path.\<close>

lemma rollback_step:
  assumes "is_dir (files w) (p @ [a])" and "is_dir (files w) p" and "a \<noteq> b"
  shows "\<exists>w'. and_then (fs_op (rmtree (p @ [a])))
                 (\<lambda>_. and_then (when_fs (\<lambda>fs. path_exists fs (p @ [b]))
                                  (fs_op (rename win (p @ [b]) (p @ [a]))))
                    (\<lambda>_. return None)) w = (Inr None, w')
           \<and> node_at (files w') (p @ [a]) = node_at (files w) (p @ [b])
           \<and> node_at (files w') (p @ [b]) = None
           \<and> (\<forall>c r. c \<noteq> a \<and> c \<noteq> b \<longrightarrow> node_at (files w') (p @ c # r) = node_at (files w) (p @ c # r))
           \<and> calls w' = calls w"
proof -
  let ?fs5 = "put (p @ [a]) None (files w)"
  let ?w5 = "w\<lparr>files := ?fs5\<rparr>"
  from assms(1) have rm: "fs_op (rmtree (p @ [a])) w = (Inr (), ?w5)"
    by (auto simp: fs_op_def rmtree_def is_dir_def split: option.splits node.splits)
  have a5: "node_at ?fs5 (p @ [a]) = None"
    by (rule node_at_put_same) (use assms(2) in simp_all)
  have o5: "node_at ?fs5 (p @ c # r) = node_at (files w) (p @ c # r)" if "c \<noteq> a" for c r
    by (rule node_at_put_other) (use that in simp_all)
  show ?thesis
  proof (cases "node_at (files w) (p @ [b])")
    case None
    with o5 [of b "[]"] assms(3) have "node_at ?fs5 (p @ [b]) = None" by simp
    then have "and_then (fs_op (rmtree (p @ [a])))
                 (\<lambda>_. and_then (when_fs (\<lambda>fs. path_exists fs (p @ [b]))
                                  (fs_op (rename win (p @ [b]) (p @ [a]))))
                    (\<lambda>_. return None)) w = (Inr None, ?w5)"
      by (simp add: rm and_then_def when_fs_def path_exists_def return_def)
    moreover have "node_at (files ?w5) (p @ [a]) = node_at (files w) (p @ [b])"
      using a5 None by simp
    moreover have "node_at (files ?w5) (p @ [b]) = None"
      using \<open>node_at ?fs5 (p @ [b]) = None\<close> by simp
    moreover have "\<forall>c r. c \<noteq> a \<and> c \<noteq> b \<longrightarrow> node_at (files ?w5) (p @ c # r) = node_at (files w) (p @ c # r)"
      using o5 by simp
    moreover have "calls ?w5 = calls w" by simp
    ultimately show ?thesis by blast
  next
    case (Some n)
    with o5 [of b "[]"] assms(3) have b5: "node_at ?fs5 (p @ [b]) = Some n" by simp
    from rename_sibling [OF b5 a5] assms(3) obtain fs6 where
      r: "rename win (p @ [b]) (p @ [a]) ?fs5 = Inr fs6"
      and f: "node_at fs6 (p @ [a]) = Some n" "node_at fs6 (p @ [b]) = None"
        "\<forall>c r. c \<noteq> b \<and> c \<noteq> a \<longrightarrow> node_at fs6 (p @ c # r) = node_at ?fs5 (p @ c # r)"
      by metis
    let ?w6 = "w\<lparr>files := fs6\<rparr>"
    note s1 = and_then_Inr [of "fs_op (rmtree (p @ [a]))" w "()" ?w5, OF rm]
    have s2: "and_then (when_fs (\<lambda>fs. path_exists fs (p @ [b]))
                 (fs_op (rename win (p @ [b]) (p @ [a])))) (\<lambda>_. return None) ?w5 = (Inr None, ?w6)"
      using b5 r by (simp add: and_then_def when_fs_def path_exists_def return_def fs_op_def)
    have "and_then (fs_op (rmtree (p @ [a])))
                 (\<lambda>_. and_then (when_fs (\<lambda>fs. path_exists fs (p @ [b]))
                                  (fs_op (rename win (p @ [b]) (p @ [a]))))
                    (\<lambda>_. return None)) w = (Inr None, ?w6)"
      by (simp only: s1 s2)
    moreover have "node_at (files ?w6) (p @ [a]) = node_at (files w) (p @ [b])"
      using f(1) Some by simp
    moreover have "node_at (files ?w6) (p @ [b]) = None" using f(2) by simp
    moreover have "\<forall>c r. c \<noteq> a \<and> c \<noteq> b \<longrightarrow> node_at (files ?w6) (p @ c # r) = node_at (files w) (p @ c # r)"
      using f(3) o5 by simp
    moreover have "calls ?w6 = calls w" by simp
    ultimately show ?thesis by blast
  qed
qed

text \<open>The commit: the backup, if there is one, is removed; a backup that is a regular
  file makes \<open>rmtree\<close> raise.\<close>

lemma commit_step:
  assumes "is_dir (files w) p"
  shows "(\<exists>w'. and_then (when_fs (\<lambda>fs. path_exists fs (p @ [b])) (fs_op (rmtree (p @ [b]))))
                  (\<lambda>_. return x) w = (Inr x, w')
            \<and> node_at (files w') (p @ [b]) = None
            \<and> (\<forall>c r. c \<noteq> b \<longrightarrow> node_at (files w') (p @ c # r) = node_at (files w) (p @ c # r)))
       \<or> and_then (when_fs (\<lambda>fs. path_exists fs (p @ [b])) (fs_op (rmtree (p @ [b]))))
            (\<lambda>_. return x) w = (Inl NotADirectoryError, w)"
proof (cases "node_at (files w) (p @ [b])")
  case None
  then have "and_then (when_fs (\<lambda>fs. path_exists fs (p @ [b])) (fs_op (rmtree (p @ [b]))))
                  (\<lambda>_. return x) w = (Inr x, w)"
    by (simp add: and_then_def when_fs_def path_exists_def return_def)
  with None show ?thesis by blast
next
  case (Some n)
  show ?thesis
  proof (cases n)
    case (File c)
    with Some show ?thesis
      by (simp add: and_then_def when_fs_def path_exists_def fs_op_def rmtree_def)
  next
    case (Dir kids)
    let ?w' = "w\<lparr>files := put (p @ [b]) None (files w)\<rparr>"
    from Some Dir have "and_then (when_fs (\<lambda>fs. path_exists fs (p @ [b])) (fs_op (rmtree (p @ [b]))))
                  (\<lambda>_. return x) w = (Inr x, ?w')"
      by (simp add: and_then_def when_fs_def path_exists_def fs_op_def rmtree_def return_def)
    moreover have "node_at (files ?w') (p @ [b]) = None"
      using node_at_put_same [of "p @ [b]" "files w" None] assms by simp
    moreover have "node_at (files ?w') (p @ c # r) = node_at (files w) (p @ c # r)" if "c \<noteq> b" for c r
      using node_at_put_other [of "p @ [b]" "p @ c # r" None "files w"] that by simp
    ultimately show ?thesis by blast
  qed
qed

section \<open>A producer that returns has recorded the version\<close>

lemma and_then_returns:
  assumes "and_then m f w = (Inr y, w')"
  obtains x w1 where "m w = (Inr x, w1)" and "f x w1 = (Inr y, w')"
  using assms by (auto simp: and_then_def split: prod.splits sum.splits)

lemma post_install_returns:
  assumes "post_install env P L v w = (Inr r, w')"
  shows "r = Some L \<and> node_at (files w') (P @ [''state'', ''version.json'']) = Some (written_record env v)"
proof -
  from assms obtain x1 w1 where
    "and_then (\<lambda>w. if path_exists (files w) (L @ [''installer.'' @ (if on_win32 env then ''ps1'' else ''sh'')])
                   then run_custom_installer env L (L @ [''installer.'' @ (if on_win32 env then ''ps1'' else ''sh'')]) w
                   else (Inr (), w))
       (\<lambda>_. and_then (store_product_state (utc_now env) P v) (\<lambda>_. return (Some L))) w1 = (Inr r, w')"
    unfolding post_install_def Let_def by (rule and_then_returns)
  then obtain x2 w2 where
    "and_then (store_product_state (utc_now env) P v) (\<lambda>_. return (Some L)) w2 = (Inr r, w')"
    by (rule and_then_returns)
  then obtain x3 w3 where s: "store_product_state (utc_now env) P v w2 = (Inr x3, w3)"
    and r: "return (Some L) w3 = (Inr r, w')"
    by (rule and_then_returns)
  from r have "r = Some L" "w' = w3" by (simp_all add: return_def)
  with store_product_state_written [of "utc_now env" P v w2 w3] s show ?thesis
    by (simp add: written_record_def)
qed

lemma Pypi_unsafe_returns:
  assumes "PypiInstaller_unsafe_install_latest_version env P L pypi v w = (Inr r, w')"
  shows "r = Some L \<and> node_at (files w') (P @ [''state'', ''version.json'']) = Some (written_record env v)"
proof -
  from assms obtain sp w1 where
    "and_then (install_from_pip env L sp pypi)
       (\<lambda>_. and_then (copy_lsp_resources env L sp) (\<lambda>_. post_install env P L v)) w1 = (Inr r, w')"
    unfolding PypiInstaller_unsafe_install_latest_version_def by (rule and_then_returns)
  then obtain x2 w2 where
    "and_then (copy_lsp_resources env L sp) (\<lambda>_. post_install env P L v) w2 = (Inr r, w')"
    by (rule and_then_returns)
  then obtain x3 w3 where "post_install env P L v w3 = (Inr r, w')"
    by (rule and_then_returns)
  then show ?thesis by (rule post_install_returns)
qed


section \<open>The outcome of a Pypi install attempt\<close>

lemma store_product_state_error:
  assumes "store_product_state now P v w = (Inl e, w')"
  shows "e \<noteq> KeyError \<and> e \<noteq> CalledProcessError \<and> \<not> is_ValueError e"
  using assms
  by (auto simp: store_product_state_def and_then_def fs_op_def Let_def mkdir_def write_file_def
      split: sum.splits if_splits option.splits node.splits)

lemma get_installed_version_written:
  assumes "node_at fs (transpilers_path @ [n, ''state'', ''version.json'']) = Some (written_record env v)"
  shows "get_installed_version fs n True = Inr (Some v)"
  by (rule get_installed_version_of_record [of fs True n v "utc_now env"])
    (use assms in \<open>simp add: written_record_def\<close>)

lemma Pypi_install_latest_outcome:
  assumes nb: "node_at (files w) (transpilers_path @ [n @ ''-saved'']) = None"
  shows "(\<exists>e. fst (PypiInstaller_install_latest_version env n pypi v w) = Inl e
              \<and> (e = FileExistsError \<or> e = NotADirectoryError)
              \<and> \<not> is_dir (files w) transpilers_path)
       \<or> (\<exists>fs3 pr w4.
             prepared n (files w) fs3
             \<and> PypiInstaller_unsafe_install_latest_version env (transpilers_path @ [n])
                 (transpilers_path @ [n, ''lib'']) pypi v (w\<lparr>files := fs3\<rparr>) = (pr, w4)
             \<and> (case pr of
                   Inl e \<Rightarrow>
                     if e = CalledProcessError \<or> is_ValueError e
                     then rolled_back n w (PypiInstaller_install_latest_version env n pypi v w)
                     else fst (PypiInstaller_install_latest_version env n pypi v w) = Inl e
                 | Inr result \<Rightarrow>
                     committed n v (transpilers_path @ [n, ''lib'']) w
                       (PypiInstaller_install_latest_version env n pypi v w)
                     \<or> fst (PypiInstaller_install_latest_version env n pypi v w) = Inl NotADirectoryError))"
proof -
  let ?T = transpilers_path
  let ?P = "?T @ [n]"
  let ?B = "?T @ [n @ ''-saved'']"
  let ?L = "?T @ [n, ''lib'']"
  let ?V = "?T @ [n, ''state'', ''version.json'']"
  let ?caught = "\<lambda>e. e = CalledProcessError \<or> is_ValueError e"
  let ?prod = "PypiInstaller_unsafe_install_latest_version env ?P ?L pypi v"
  let ?commit = "\<lambda>result. and_then (when_fs (\<lambda>fs. path_exists fs ?B) (fs_op (rmtree ?B)))
                    (\<lambda>_. return result)"
  let ?rollback = "and_then (fs_op (rmtree ?P))
                     (\<lambda>_. and_then (when_fs (\<lambda>fs. path_exists fs ?B)
                                      (fs_op (rename (on_win32 env) ?B ?P)))
                        (\<lambda>_. return (None :: path option)))"
  let ?guarded = "try_except (and_then ?prod ?commit) ?caught ?rollback"
  let ?out = "PypiInstaller_install_latest_version env n pypi v w"
  have ne: "n \<noteq> n @ ''-saved''" by simp
  from backup_step [OF nb ne, of "on_win32 env"] obtain fs1 where
    b: "when_fs (\<lambda>fs. path_exists fs ?P) (fs_op (rename (on_win32 env) ?P ?B)) w
          = (Inr (), w\<lparr>files := fs1\<rparr>)"
    and b1: "node_at fs1 ?B = node_at (files w) ?P"
    and b2: "node_at fs1 ?P = None"
    and b3': "\<forall>c r. c \<noteq> n \<and> c \<noteq> n @ ''-saved'' \<longrightarrow> node_at fs1 (?T @ c # r) = node_at (files w) (?T @ c # r)"
    and b5: "is_dir (files w) ?T \<longrightarrow> is_dir fs1 ?T"
    by (elim exE conjE)
  from b3' have b3: "\<And>c r. c \<noteq> n \<Longrightarrow> c \<noteq> n @ ''-saved'' \<Longrightarrow> node_at fs1 (?T @ c # r) = node_at (files w) (?T @ c # r)"
    by simp
  let ?w1 = "w\<lparr>files := fs1\<rparr>"
  have unf: "?out = and_then (fs_op (mkdir_parents ?P)) (\<lambda>_. and_then (fs_op (mkdir ?L)) (\<lambda>_. ?guarded)) ?w1"
    unfolding PypiInstaller_install_latest_version_def Let_def append_assoc append_Cons append_Nil
    by (rule and_then_Inr) (rule b)
  from prepare_step [OF b2] consider
    (err) e where "mkdir_parents ?P fs1 = Inl e" "e = FileExistsError \<or> e = NotADirectoryError"
      "\<not> is_dir fs1 ?T"
  | (ok) fs2 fs3 where "mkdir_parents ?P fs1 = Inr fs2" "mkdir ?L fs2 = Inr fs3"
      "is_dir fs3 ?P" "is_dir fs3 ?T"
      "\<forall>c r. c \<noteq> n \<longrightarrow> node_at fs3 (?T @ c # r) = node_at fs1 (?T @ c # r)"
      "node_at fs3 ?P = Some (Dir [(''lib'', Dir [])])"
    by blast
  then show ?thesis
  proof cases
    case err
    with unf have "fst ?out = Inl e" by (simp add: and_then_def fs_op_def)
    with err(2,3) b5 show ?thesis by blast
  next
    case ok
    note m = ok(1,2) and d3 = ok(3,4) and o3 = ok(5) and l3 = ok(6)
    let ?w3 = "w\<lparr>files := fs3\<rparr>"
    from unf m have unf3: "?out = ?guarded ?w3"
      by (simp add: and_then_def fs_op_def)
    from o3 b1 ne have b3B: "node_at fs3 ?B = node_at (files w) ?P"
      using o3 [rule_format, of "n @ ''-saved''" "[]"] by simp
    from o3 b3 have "others_untouched n (files w) fs3"
      by (simp add: others_untouched_def)
    with l3 b3B have prep: "prepared n (files w) fs3"
      by (simp add: prepared_def)
    obtain pr w4 where p: "?prod ?w3 = (pr, w4)" by (cases "?prod ?w3")
    from writes_below_Pypi_unsafe [of ?P env pypi v] p have c4: "confined ?P fs3 (files w4)"
      by (auto simp: writes_below_def dest: spec [of _ ?w3])
    from c4 d3 have d4: "is_dir (files w4) ?P" "is_dir (files w4) ?T"
      by (auto simp: confined_def)
    have o4: "node_at (files w4) (?T @ c # q) = node_at fs1 (?T @ c # q)" if "c \<noteq> n" for c q
      using c4 o3 that by (simp add: confined_def)
    from o4 [of "n @ ''-saved''" "[]"] b1 have b4: "node_at (files w4) ?B = node_at (files w) ?P"
      by simp
    have main: "case pr of
                   Inl e \<Rightarrow> if ?caught e then rolled_back n w ?out else fst ?out = Inl e
                 | Inr result \<Rightarrow> committed n v ?L w ?out \<or> fst ?out = Inl NotADirectoryError"
    proof (cases pr)
      case (Inl e)
      have body: "and_then ?prod ?commit ?w3 = (Inl e, w4)"
        by (rule and_then_Inl) (use p Inl in simp)
      show ?thesis
      proof (cases "?caught e")
        case False
        from unf3 have "fst ?out = Inl e" by (simp add: try_except_def body False)
        with False Inl show ?thesis by simp
      next
        case True
        from rollback_step [OF d4 ne, of "on_win32 env"] obtain w6 where
          rb: "?rollback w4 = (Inr None, w6)"
          and r1: "node_at (files w6) ?P = node_at (files w4) ?B"
          and r2: "node_at (files w6) ?B = None"
          and r3: "\<forall>c r. c \<noteq> n \<and> c \<noteq> n @ ''-saved'' \<longrightarrow>
                     node_at (files w6) (?T @ c # r) = node_at (files w4) (?T @ c # r)"
          and r4: "calls w6 = calls w4"
          by (elim exE conjE)
        from unf3 have out: "?out = (Inr None, w6)"
          by (simp add: try_except_def body True rb)
        from r3 o4 b3 have "others_untouched n (files w) (files w6)"
          by (simp add: others_untouched_def)
        with r1 r2 b4 have "rolled_back n w ?out"
          by (simp add: rolled_back_def out)
        with True Inl show ?thesis by simp
      qed
    next
      case (Inr result)
      with p Pypi_unsafe_returns [of env ?P ?L pypi v ?w3 result w4]
      have res: "result = Some ?L" and rec: "node_at (files w4) ?V = Some (written_record env v)"
        by simp_all
      from commit_step [OF d4(2), of "n @ ''-saved''" result]
      have "committed n v ?L w ?out \<or> fst ?out = Inl NotADirectoryError"
      proof (elim disjE exE conjE)
        fix w5
        assume c: "?commit result w4 = (Inr result, w5)"
          and c1: "node_at (files w5) ?B = None"
          and c2: "\<forall>c r. c \<noteq> n @ ''-saved'' \<longrightarrow> node_at (files w5) (?T @ c # r) = node_at (files w4) (?T @ c # r)"
        have body: "and_then ?prod ?commit ?w3 = (Inr result, w5)"
          using and_then_Inr [of ?prod ?w3 result w4 ?commit] p Inr c by simp
        from unf3 have out: "?out = (Inr result, w5)"
          by (simp add: try_except_def body)
        from c2 o4 b3 have "others_untouched n (files w) (files w5)"
          by (simp add: others_untouched_def)
        moreover from c2 ne rec have "node_at (files w5) ?V = Some (written_record env v)"
          by simp
        then have "get_installed_version (files w5) n True = Inr (Some v)"
          by (rule get_installed_version_written)
        ultimately have "committed n v ?L w ?out"
          using res c1 by (simp add: committed_def out)
        then show ?thesis ..
      next
        assume c: "?commit result w4 = (Inl NotADirectoryError, w4)"
        have body: "and_then ?prod ?commit ?w3 = (Inl NotADirectoryError, w4)"
          using and_then_Inr [of ?prod ?w3 result w4 ?commit] p Inr c by simp
        from unf3 have "fst ?out = Inl NotADirectoryError"
          by (simp add: try_except_def body)
        then show ?thesis ..
      qed
      with Inr show ?thesis by simp
    qed
    show ?thesis
      by (rule disjI2, rule exI [of _ fs3], rule exI [of _ pr], rule exI [of _ w4])
        (use prep p main in simp)
  qed
qed

section \<open>The outcome of a Maven install attempt\<close>

lemma Maven_install_outcome:
  assumes nb: "node_at (files w) (transpilers_path @ [n @ ''-saved'']) = None"
  shows "(\<exists>e. fst (MavenInstaller_install_version env n g a v w) = Inl e
              \<and> (e = FileExistsError \<or> e = NotADirectoryError)
              \<and> \<not> is_dir (files w) transpilers_path)
       \<or> (\<exists>fs3 pr w4.
             prepared n (files w) fs3
             \<and> MavenInstaller_unsafe_install_version env (transpilers_path @ [n, ''lib'']) g a v
                 (w\<lparr>files := fs3\<rparr>) = (pr, w4)
             \<and> (case pr of
                   Inl e \<Rightarrow>
                     if e = KeyError \<or> is_ValueError e
                     then rolled_back n w (MavenInstaller_install_version env n g a v w)
                     else fst (MavenInstaller_install_version env n g a v w) = Inl e
                 | Inr ok \<Rightarrow>
                     if ok
                     then committed n v (transpilers_path @ [n]) w
                            (MavenInstaller_install_version env n g a v w)
                          \<or> (\<exists>e. fst (MavenInstaller_install_version env n g a v w) = Inl e
                                 \<and> e \<noteq> KeyError \<and> \<not> is_ValueError e)
                     else rolled_back n w (MavenInstaller_install_version env n g a v w)))"
proof -
  let ?T = transpilers_path
  let ?P = "?T @ [n]"
  let ?B = "?T @ [n @ ''-saved'']"
  let ?L = "?T @ [n, ''lib'']"
  let ?V = "?T @ [n, ''state'', ''version.json'']"
  let ?caught = "\<lambda>e. e = KeyError \<or> is_ValueError e"
  let ?prod = "MavenInstaller_unsafe_install_version env ?L g a v"
  let ?store = "store_product_state (utc_now env) ?P v"
  let ?commit = "and_then (when_fs (\<lambda>fs. path_exists fs ?B) (fs_op (rmtree ?B)))
                    (\<lambda>_. return (Some (Some ?P)))"
  let ?after = "\<lambda>ok. if ok then and_then ?store (\<lambda>_. ?commit) else return None"
  let ?rollback = "and_then (fs_op (rmtree ?P))
                     (\<lambda>_. and_then (when_fs (\<lambda>fs. path_exists fs ?B)
                                      (fs_op (rename (on_win32 env) ?B ?P)))
                        (\<lambda>_. return (None :: path option)))"
  let ?guarded = "try_except (and_then ?prod ?after) ?caught (return None)"
  let ?finish = "\<lambda>returned. case returned of Some result \<Rightarrow> return result | None \<Rightarrow> ?rollback"
  let ?out = "MavenInstaller_install_version env n g a v w"
  have ne: "n \<noteq> n @ ''-saved''" by simp
  from nb have stale: "when_fs (\<lambda>fs. path_exists fs ?B) (fs_op (rmtree ?B)) w = (Inr (), w)"
    by (simp add: when_fs_def path_exists_def)
  from backup_step [OF nb ne, of "on_win32 env"] obtain fs1 where
    b: "when_fs (\<lambda>fs. path_exists fs ?P) (fs_op (rename (on_win32 env) ?P ?B)) w
          = (Inr (), w\<lparr>files := fs1\<rparr>)"
    and b1: "node_at fs1 ?B = node_at (files w) ?P"
    and b2: "node_at fs1 ?P = None"
    and b3': "\<forall>c r. c \<noteq> n \<and> c \<noteq> n @ ''-saved'' \<longrightarrow> node_at fs1 (?T @ c # r) = node_at (files w) (?T @ c # r)"
    and b5: "is_dir (files w) ?T \<longrightarrow> is_dir fs1 ?T"
    by (elim exE conjE)
  from b3' have b3: "\<And>c r. c \<noteq> n \<Longrightarrow> c \<noteq> n @ ''-saved'' \<Longrightarrow> node_at fs1 (?T @ c # r) = node_at (files w) (?T @ c # r)"
    by simp
  let ?w1 = "w\<lparr>files := fs1\<rparr>"
  have unf0: "?out
      = and_then (when_fs (\<lambda>fs. path_exists fs ?P) (fs_op (rename (on_win32 env) ?P ?B)))
          (\<lambda>_. and_then (fs_op (mkdir_parents ?P))
             (\<lambda>_. and_then (fs_op (mkdir ?L)) (\<lambda>_. and_then ?guarded ?finish))) w"
    unfolding MavenInstaller_install_version_def Let_def append_assoc append_Cons append_Nil
    by (rule and_then_Inr) (rule stale)
  have unf: "?out
      = and_then (fs_op (mkdir_parents ?P))
          (\<lambda>_. and_then (fs_op (mkdir ?L)) (\<lambda>_. and_then ?guarded ?finish)) ?w1"
    unfolding unf0 by (rule and_then_Inr) (rule b)
  from prepare_step [OF b2] consider
    (err) e where "mkdir_parents ?P fs1 = Inl e" "e = FileExistsError \<or> e = NotADirectoryError"
      "\<not> is_dir fs1 ?T"
  | (ok) fs2 fs3 where "mkdir_parents ?P fs1 = Inr fs2" "mkdir ?L fs2 = Inr fs3"
      "is_dir fs3 ?P" "is_dir fs3 ?T"
      "\<forall>c r. c \<noteq> n \<longrightarrow> node_at fs3 (?T @ c # r) = node_at fs1 (?T @ c # r)"
      "node_at fs3 ?P = Some (Dir [(''lib'', Dir [])])"
    by blast
  then show ?thesis
  proof cases
    case err
    with unf have "fst ?out = Inl e" by (simp add: and_then_def fs_op_def)
    with err(2,3) b5 show ?thesis by blast
  next
    case ok
    note m = ok(1,2) and d3 = ok(3,4) and o3 = ok(5) and l3 = ok(6)
    let ?w3 = "w\<lparr>files := fs3\<rparr>"
    from unf m have unf3: "?out = and_then ?guarded ?finish ?w3"
      by (simp add: and_then_def fs_op_def)
    from o3 b1 ne have b3B: "node_at fs3 ?B = node_at (files w) ?P"
      using o3 [rule_format, of "n @ ''-saved''" "[]"] by simp
    from o3 b3 have "others_untouched n (files w) fs3"
      by (simp add: others_untouched_def)
    with l3 b3B have prep: "prepared n (files w) fs3"
      by (simp add: prepared_def)
    obtain pr w4 where p: "?prod ?w3 = (pr, w4)" by (cases "?prod ?w3")
    from writes_below_Maven_unsafe [of ?P env g a v] p have c4: "confined ?P fs3 (files w4)"
      by (auto simp: writes_below_def dest: spec [of _ ?w3])
    from c4 d3 have d4: "is_dir (files w4) ?P" "is_dir (files w4) ?T"
      by (auto simp: confined_def)
    have o4: "node_at (files w4) (?T @ c # q) = node_at fs1 (?T @ c # q)" if "c \<noteq> n" for c q
      using c4 o3 that by (simp add: confined_def)
    from o4 [of "n @ ''-saved''" "[]"] b1 have b4: "node_at (files w4) ?B = node_at (files w) ?P"
      by simp
    have rolled: "rolled_back n w ?out" if t: "?guarded ?w3 = (Inr None, w4)"
    proof -
      from rollback_step [OF d4 ne, of "on_win32 env"] obtain w6 where
        rb: "?rollback w4 = (Inr None, w6)"
        and r1: "node_at (files w6) ?P = node_at (files w4) ?B"
        and r2: "node_at (files w6) ?B = None"
        and r3: "\<forall>c r. c \<noteq> n \<and> c \<noteq> n @ ''-saved'' \<longrightarrow>
                   node_at (files w6) (?T @ c # r) = node_at (files w4) (?T @ c # r)"
        and r4: "calls w6 = calls w4"
        by (elim exE conjE)
      have "and_then ?guarded ?finish ?w3 = ?rollback w4"
        using and_then_Inr [of ?guarded ?w3 None w4 ?finish] t by simp
      with unf3 rb have out: "?out = (Inr None, w6)" by simp
      from r3 o4 b3 have "others_untouched n (files w) (files w6)"
        by (simp add: others_untouched_def)
      with r1 r2 b4 show ?thesis by (simp add: rolled_back_def out)
    qed
    have raised: "fst ?out = Inl e" if t: "?guarded ?w3 = (Inl e, u)" for e u
    proof -
      have "and_then ?guarded ?finish ?w3 = (Inl e, u)"
        by (rule and_then_Inl) (rule t)
      with unf3 show ?thesis by simp
    qed
    have main: "case pr of
                  Inl e \<Rightarrow> if ?caught e then rolled_back n w ?out else fst ?out = Inl e
                | Inr ok \<Rightarrow>
                    if ok then committed n v ?P w ?out
                               \<or> (\<exists>e. fst ?out = Inl e \<and> e \<noteq> KeyError \<and> \<not> is_ValueError e)
                    else rolled_back n w ?out"
    proof (cases pr)
      case (Inl e)
      have body: "and_then ?prod ?after ?w3 = (Inl e, w4)"
        by (rule and_then_Inl) (use p Inl in simp)
      show ?thesis
      proof (cases "?caught e")
        case False
        then have "?guarded ?w3 = (Inl e, w4)" by (simp add: try_except_def body)
        then have "fst ?out = Inl e" by (rule raised)
        with False Inl show ?thesis by simp
      next
        case True
        then have "?guarded ?w3 = (Inr None, w4)" by (simp add: try_except_def body return_def)
        then have "rolled_back n w ?out" by (rule rolled)
        with True Inl show ?thesis by simp
      qed
    next
      case (Inr ok)
      show ?thesis
      proof (cases ok)
        case False
        have body: "and_then ?prod ?after ?w3 = (Inr None, w4)"
          using and_then_Inr [of ?prod ?w3 ok w4 ?after] p Inr False by (simp add: return_def)
        then have "?guarded ?w3 = (Inr None, w4)" by (simp add: try_except_def)
        then have "rolled_back n w ?out" by (rule rolled)
        with False Inr show ?thesis by simp
      next
        case True
        have body: "and_then ?prod ?after ?w3 = and_then ?store (\<lambda>_. ?commit) w4"
          using and_then_Inr [of ?prod ?w3 ok w4 ?after] p Inr True by simp
        obtain s w5 where st: "?store w4 = (s, w5)" by (cases "?store w4")
        from writes_below_store_product_state [of ?P "utc_now env" v] st
        have c5: "confined ?P (files w4) (files w5)"
          by (auto simp: writes_below_def dest: spec [of _ w4])
        from c5 d4 have d5: "is_dir (files w5) ?T" by (auto simp: confined_def)
        have o5: "node_at (files w5) (?T @ c # q) = node_at fs1 (?T @ c # q)" if "c \<noteq> n" for c q
          using c5 o4 that by (simp add: confined_def)
        have "committed n v ?P w ?out
              \<or> (\<exists>e. fst ?out = Inl e \<and> e \<noteq> KeyError \<and> \<not> is_ValueError e)"
        proof (cases s)
          case (Inl e)
          with st store_product_state_error [of "utc_now env" ?P v w4 e w5]
          have e: "\<not> ?caught e" by simp
          have "and_then ?store (\<lambda>_. ?commit) w4 = (Inl e, w5)"
            by (rule and_then_Inl) (use st Inl in simp)
          with body e have "?guarded ?w3 = (Inl e, w5)" by (simp add: try_except_def)
          then have "fst ?out = Inl e" by (rule raised)
          with e show ?thesis by blast
        next
          case (Inr x)
          with st store_product_state_written [of "utc_now env" ?P v w4 w5]
          have rec: "node_at (files w5) ?V = Some (written_record env v)"
            by (simp add: written_record_def)
          have body5: "and_then ?prod ?after ?w3 = ?commit w5"
            using and_then_Inr [of ?store w4 x w5 "\<lambda>_. ?commit"] st Inr body by simp
          from commit_step [OF d5, of "n @ ''-saved''" "Some (Some ?P)"] show ?thesis
          proof (elim disjE exE conjE)
            fix w6
            assume c: "?commit w5 = (Inr (Some (Some ?P)), w6)"
              and c1: "node_at (files w6) ?B = None"
              and c2: "\<forall>c r. c \<noteq> n @ ''-saved'' \<longrightarrow> node_at (files w6) (?T @ c # r) = node_at (files w5) (?T @ c # r)"
            have "?guarded ?w3 = (Inr (Some (Some ?P)), w6)"
              by (simp add: try_except_def body5 c)
            then have "and_then ?guarded ?finish ?w3 = (Inr (Some ?P), w6)"
              using and_then_Inr [of ?guarded ?w3 "Some (Some ?P)" w6 ?finish] by (simp add: return_def)
            with unf3 have out: "?out = (Inr (Some ?P), w6)" by simp
            from c2 o5 b3 have "others_untouched n (files w) (files w6)"
              by (simp add: others_untouched_def)
            moreover from c2 ne rec have "node_at (files w6) ?V = Some (written_record env v)"
              by simp
            then have "get_installed_version (files w6) n True = Inr (Some v)"
              by (rule get_installed_version_written)
            ultimately have "committed n v ?P w ?out"
              using c1 by (simp add: committed_def out)
            then show ?thesis ..
          next
            assume c: "?commit w5 = (Inl NotADirectoryError, w5)"
            have "?guarded ?w3 = (Inl NotADirectoryError, w5)"
              by (simp add: try_except_def body5 c)
            then have "fst ?out = Inl NotADirectoryError" by (rule raised)
            then show ?thesis by simp
          qed
        qed
        with True Inr show ?thesis by simp
      qed
    qed
    show ?thesis
      by (rule disjI2, rule exI [of _ fs3], rule exI [of _ pr], rule exI [of _ w4])
        (use prep p main in simp)
  qed
qed

section \<open>Install attempts: commit or rollback\<close>

lemmas io_defs = and_then_def try_except_def return_def raise_def fs_op_def fs_read_def
  of_result_def when_fs_def record_call_def run_in_def

lemmas fs_defs = path_exists_def is_dir_def is_file_def mkdir_def rmtree_def rename_def
  write_file_def read_bytes_def listdir_def move_file_def move_download_def rmdir_def open_zip_def
  transpilers_path_def labs_path_def



lemmas world_defs = installed_world_def stale_backup_world_def home_with_def demo_engine_def
  version_record_def offline_env_def pom_env_def failing_process_env_def not_found_env_def





section \<open>Installs that change nothing\<close>

lemma get_pypi_artifact_version_world:
  "snd (get_pypi_artifact_version env n w)
     = w\<lparr>calls := calls w @ [UrlOpen (''https://pypi.org/pypi/'' @ n @ ''/json'')]\<rparr>"
  by (simp add: get_pypi_artifact_version_def try_except_def and_then_def record_call_def
      raise_def return_def Let_def split: sum.splits json.splits)

lemma get_current_maven_artifact_version_world:
  "snd (get_current_maven_artifact_version env g a w)
     = w\<lparr>calls := calls w @ [UrlOpen (artifact_metadata_url g a)]\<rparr>"
  by (simp add: get_current_maven_artifact_version_def and_then_def record_call_def
      raise_def return_def of_result_def Let_def split: sum.splits)

lemma up_to_date_pypi:
  assumes "fst (get_pypi_artifact_version env pypi_name w) = Inr (Some v)"
    and "get_installed_version (files w) product_name True = Inr (Some v)"
  shows "install_from_pypi env product_name pypi_name w
           = (Inr None, w\<lparr>calls := calls w @ [UrlOpen (''https://pypi.org/pypi/'' @ pypi_name @ ''/json'')]\<rparr>)"
proof -
  let ?w1 = "w\<lparr>calls := calls w @ [UrlOpen (''https://pypi.org/pypi/'' @ pypi_name @ ''/json'')]\<rparr>"
  from assms(1) get_pypi_artifact_version_world [of env pypi_name w]
  have l: "get_pypi_artifact_version env pypi_name w = (Inr (Some v), ?w1)"
    by (cases "get_pypi_artifact_version env pypi_name w") simp
  show ?thesis
    unfolding install_from_pypi_def PypiInstaller_install_def
      PypiInstaller_install_checking_versions_def
    by (simp add: and_then_def l fs_read_def return_def assms(2))
qed

lemma up_to_date_maven:
  assumes "fst (get_current_maven_artifact_version env group_id artifact_id w) = Inr (Some v)"
    and "get_installed_version (files w) product_name True = Inr (Some v)"
  shows "install_from_maven env product_name group_id artifact_id w
           = (Inr None, w\<lparr>calls := calls w @ [UrlOpen (artifact_metadata_url group_id artifact_id)]\<rparr>)"
proof -
  let ?w1 = "w\<lparr>calls := calls w @ [UrlOpen (artifact_metadata_url group_id artifact_id)]\<rparr>"
  from assms(1) get_current_maven_artifact_version_world [of env group_id artifact_id w]
  have l: "get_current_maven_artifact_version env group_id artifact_id w = (Inr (Some v), ?w1)"
    by (cases "get_current_maven_artifact_version env group_id artifact_id w") simp
  show ?thesis
    unfolding install_from_maven_def MavenInstaller_install_def
      MavenInstaller_install_checking_versions_def
    by (simp add: and_then_def l fs_read_def return_def assms(2))
qed



section \<open>The installed version is the latest\<close>

lemmas lookup_defs = get_pypi_artifact_version_def get_current_maven_artifact_version_def
  extract_latest_release_version_def findtext_def iterfind_def findall_children_def
  artifact_metadata_url_def artifact_base_url_def maven_central_repo_def
  get_installed_version_def latest_1_0_0_env_def

text \<open>
  C5. When the version recorded for an engine equals the latest version that its registry
  reports, the install, from Pypi or from Maven, returns nothing and leaves the world as
  it was but for the one request that asked the registry for the latest version: the
  files are unchanged, and no download and no process is started.
\<close>

theorem install_up_to_date_is_noop:
  "(fst (get_pypi_artifact_version env pypi_name w) = Inr (Some v)
     \<and> get_installed_version (files w) product_name True = Inr (Some v)
     \<longrightarrow> install_from_pypi env product_name pypi_name w
          = (Inr None,
             w\<lparr>calls := calls w @ [UrlOpen (''https://pypi.org/pypi/'' @ pypi_name @ ''/json'')]\<rparr>))
   \<and> (fst (get_current_maven_artifact_version env group_id artifact_id w) = Inr (Some v)
     \<and> get_installed_version (files w) product_name True = Inr (Some v)
     \<longrightarrow> install_from_maven env product_name group_id artifact_id w
          = (Inr None,
             w\<lparr>calls := calls w @ [UrlOpen (artifact_metadata_url group_id artifact_id)]\<rparr>))"
  using up_to_date_pypi up_to_date_maven by blast

theorem install_up_to_date_is_noop_witness:
  "fst (get_pypi_artifact_version latest_1_0_0_env ''demo-pkg'' installed_world) = Inr (Some ''1.0.0'')
   \<and> fst (get_current_maven_artifact_version latest_1_0_0_env ''g'' ''a'' installed_world)
       = Inr (Some ''1.0.0'')
   \<and> get_installed_version (files installed_world) ''demo'' True = Inr (Some ''1.0.0'')
   \<and> install_from_pypi latest_1_0_0_env ''demo'' ''demo-pkg'' installed_world
       = (Inr None,
          \<lparr>files = files installed_world,
           calls = [UrlOpen ''https://pypi.org/pypi/demo-pkg/json'']\<rparr>)
   \<and> install_from_maven latest_1_0_0_env ''demo'' ''g'' ''a'' installed_world
       = (Inr None,
          \<lparr>files = files installed_world,
           calls = [UrlOpen ''https://repo.maven.apache.org/maven2/g/a/maven-metadata.xml'']\<rparr>)"
proof -
  have a: "fst (get_pypi_artifact_version latest_1_0_0_env ''demo-pkg'' installed_world)
      = Inr (Some ''1.0.0'')"
    by (simp add: lookup_defs io_defs world_defs Let_def)
  have b: "fst (get_current_maven_artifact_version latest_1_0_0_env ''g'' ''a'' installed_world)
      = Inr (Some ''1.0.0'')"
    by (simp add: lookup_defs io_defs world_defs Let_def)
  have c: "get_installed_version (files installed_world) ''demo'' True = Inr (Some ''1.0.0'')"
    by (simp add: lookup_defs fs_defs world_defs Let_def)
  have u: "artifact_metadata_url ''g'' ''a''
      = ''https://repo.maven.apache.org/maven2/g/a/maven-metadata.xml''"
    by (simp add: lookup_defs)
  have k: "calls installed_world = []" by (simp add: installed_world_def)
  from install_up_to_date_is_noop
    [of latest_1_0_0_env "''demo-pkg''" installed_world "''1.0.0''" "''demo''" "''g''" "''a''"]
    a b c
  have "install_from_pypi latest_1_0_0_env ''demo'' ''demo-pkg'' installed_world
       = (Inr None,
          installed_world\<lparr>calls := calls installed_world @ [UrlOpen (''https://pypi.org/pypi/'' @ ''demo-pkg'' @ ''/json'')]\<rparr>)"
    and "install_from_maven latest_1_0_0_env ''demo'' ''g'' ''a'' installed_world
       = (Inr None,
          installed_world\<lparr>calls := calls installed_world @ [UrlOpen (artifact_metadata_url ''g'' ''a'')]\<rparr>)"
    by blast+
  with a b c show ?thesis by (simp add: u k)
qed

section \<open>A returned path means a recorded version\<close>






section \<open>Installs that are due, and attempts that fail\<close>

lemma outcome_cases_full:
  assumes "(\<exists>e. A e \<and> B e \<and> C) \<or> (\<exists>fs3 pr w4. P fs3 \<and> Q fs3 pr w4 \<and> R pr)"
  obtains (err) e where "A e" "B e" "C" | (run) fs3 pr w4 where "P fs3" "Q fs3 pr w4" "R pr"
  using assms by blast





lemma Maven_download_failure_rolls_back:
  assumes nb: "node_at (files w) (transpilers_path @ [n @ ''-saved'']) = None"
    and d: "is_dir (files w) transpilers_path"
    and u: "urlretrieve env (artifact_url g a v None ''jar'') = Inl e" "is_URLError e"
  shows "rolled_back n w (MavenInstaller_install_version env n g a v w)"
  using Maven_install_outcome [OF nb, of env g a v]
proof (cases rule: outcome_cases_full)
  case (err e)
  with d show ?thesis by simp
next
  case (run fs3 pr w4)
  from run(1) have "node_at fs3 (transpilers_path @ [n]) = Some (Dir [(''lib'', Dir [])])"
    by (simp add: prepared_def)
  with node_at_append [of fs3 "transpilers_path @ [n]" "[''lib'', a @ ''.jar'']"]
  have "node_at fs3 (transpilers_path @ [n, ''lib'', a @ ''.jar'']) = None" by simp
  with u run(2) have "pr = Inr False"
    by (simp add: MavenInstaller_unsafe_install_version_def download_artifact_from_maven_def
        path_exists_def and_then_def record_call_def return_def Let_def)
  with run(3) show ?thesis by simp
qed

lemma Pypi_venv_failure_rolls_back:
  assumes nb: "node_at (files w) (transpilers_path @ [n @ ''-saved'']) = None"
    and d: "is_dir (files w) transpilers_path"
    and u: "run env [sys_executable env @ '' -m venv .venv''] (Dir []) = (Inr rc, lib')" "rc \<noteq> 0"
  shows "rolled_back n w (PypiInstaller_install_latest_version env n pypi v w)"
  using Pypi_install_latest_outcome [OF nb, of env pypi v]
proof (cases rule: outcome_cases_full)
  case (err e)
  with d show ?thesis by simp
next
  case (run fs3 pr w4)
  from run(1) have "node_at fs3 (transpilers_path @ [n]) = Some (Dir [(''lib'', Dir [])])"
    by (simp add: prepared_def)
  with node_at_append [of fs3 "transpilers_path @ [n]" "[''lib'']"]
  have "node_at fs3 (transpilers_path @ [n, ''lib'']) = Some (Dir [])" by simp
  with u run(2) have "pr = Inl CalledProcessError"
    by (simp add: PypiInstaller_unsafe_install_latest_version_def create_venv_def run_in_def
        and_then_def raise_def Let_def)
  with run(3) show ?thesis by simp
qed







section \<open>The result of the public install operations\<close>





end
